theory Spec2Isabelle
  imports Complex_Main "HOL-Library.Log_Nat"
begin

section \<open>Text\<close>

text \<open>
  A Python \<^verbatim>\<open>str\<close> is modelled as a \<^typ>\<open>string\<close>: a list of characters, each
  character standing for the code point with the same number (0 to 255, the Latin-1
  range). The character classes below are the ones Python's \<^verbatim>\<open>re\<close> module and
  \<^verbatim>\<open>str\<close> methods use on that range.
\<close>

definition ord :: "char \<Rightarrow> nat" where
  "ord c = of_char c"

definition chr :: "nat \<Rightarrow> char" where
  "chr n = char_of n"

text \<open>The class \<^verbatim>\<open>[a-z]\<close>.\<close>

definition is_az :: "char \<Rightarrow> bool" where
  "is_az c = (97 \<le> ord c \<and> ord c \<le> 122)"

text \<open>The class \<^verbatim>\<open>\d\<close>: decimal digits.\<close>

definition is_digit :: "char \<Rightarrow> bool" where
  "is_digit c = (48 \<le> ord c \<and> ord c \<le> 57)"

text \<open>The class \<^verbatim>\<open>\s\<close>, which is also what \<^verbatim>\<open>str.strip()\<close> removes.\<close>

definition is_space :: "char \<Rightarrow> bool" where
  "is_space c = (let n = ord c in (9 \<le> n \<and> n \<le> 13) \<or> (28 \<le> n \<and> n \<le> 32) \<or> n = 133 \<or> n = 160)"

text \<open>
  The class \<^verbatim>\<open>\w\<close>: alphanumeric characters and the underscore. Beyond ASCII it
  holds the Latin-1 letters and the characters with a numeric value (superscript digits,
  vulgar fractions).
\<close>

definition is_word :: "char \<Rightarrow> bool" where
  "is_word c =
     (let n = ord c
      in (48 \<le> n \<and> n \<le> 57) \<or> (65 \<le> n \<and> n \<le> 90) \<or> n = 95 \<or> (97 \<le> n \<and> n \<le> 122)
         \<or> n = 170 \<or> n = 178 \<or> n = 179 \<or> n = 181 \<or> n = 185 \<or> n = 186
         \<or> (188 \<le> n \<and> n \<le> 190) \<or> (192 \<le> n \<and> n \<le> 214) \<or> (216 \<le> n \<and> n \<le> 246)
         \<or> (248 \<le> n \<and> n \<le> 255))"

text \<open>\<^verbatim>\<open>str.lower()\<close>, character by character.\<close>

definition lower_char :: "char \<Rightarrow> char" where
  "lower_char c =
     (let n = ord c
      in if (65 \<le> n \<and> n \<le> 90) \<or> (192 \<le> n \<and> n \<le> 214) \<or> (216 \<le> n \<and> n \<le> 222)
         then chr (n + 32) else c)"

definition lower :: "string \<Rightarrow> string" where
  "lower s = map lower_char s"

definition hd_opt :: "'a list \<Rightarrow> 'a option" where
  "hd_opt xs = (case xs of [] \<Rightarrow> None | x # _ \<Rightarrow> Some x)"

text \<open>
  \<^verbatim>\<open>\b\<close> holds at a position when exactly one of the characters before and after it
  is a word character; the start and the end of the text count as non-word.
\<close>

definition is_word_opt :: "char option \<Rightarrow> bool" where
  "is_word_opt x = (case x of None \<Rightarrow> False | Some c \<Rightarrow> is_word c)"

definition word_boundary :: "char option \<Rightarrow> char option \<Rightarrow> bool" where
  "word_boundary prev next = (is_word_opt prev \<noteq> is_word_opt next)"

section \<open>Keyword Analyzer\<close>

definition stop_words :: "string set" where
  "stop_words = set [''the'', ''a'', ''an'', ''and'', ''or'', ''but'', ''in'', ''on'', ''at'', ''to'', ''for'',
     ''of'', ''with'', ''by'', ''from'', ''as'', ''is'', ''was'', ''are'', ''been'', ''be'',
     ''have'', ''has'', ''do'', ''does'', ''did'', ''will'', ''would'', ''could'', ''should'',
     ''may'', ''might'', ''must'', ''can'', ''this'', ''that'', ''these'', ''those'', ''i'',
     ''you'', ''he'', ''she'', ''it'', ''we'', ''they'', ''what'', ''which'', ''who'', ''when'',
     ''where'', ''why'', ''how'', ''all'', ''each'', ''every'', ''both'', ''few'', ''more'',
     ''most'', ''other'', ''some'', ''such'', ''no'', ''nor'', ''not'', ''only'', ''own'',
     ''same'', ''so'', ''than'', ''too'', ''very'']"

text \<open>
  One attempt of the pattern \<^verbatim>\<open>\b[a-z]+\b\<close> at a position, \<open>prev\<close> the
  character in front of it and \<open>s\<close> the text from it on. The greedy \<^verbatim>\<open>[a-z]+\<close>
  takes the longest run of letters first and gives letters back one at a time until the
  closing \<^verbatim>\<open>\b\<close> holds. The result is the length of the match.
\<close>

definition match_word :: "char option \<Rightarrow> string \<Rightarrow> nat option" where
  "match_word prev s =
     (if word_boundary prev (hd_opt s)
      then find (\<lambda>n. word_boundary (Some (s ! (n - 1))) (hd_opt (drop n s)))
             (rev [1 ..< Suc (length (takeWhile is_az s))])
      else None)"

lemma match_word_Some: "match_word prev s = Some n \<Longrightarrow> 0 < n \<and> n \<le> length s"
proof -
  let ?ns = "rev [1 ..< Suc (length (takeWhile is_az s))]"
  assume "match_word prev s = Some n"
  then obtain P where "find P ?ns = Some n"
    by (auto simp: match_word_def split: if_splits)
  then obtain i where "i < length ?ns" and "n = ?ns ! i"
    unfolding find_Some_iff by blast
  then have "n \<in> set ?ns"
    using nth_mem by blast
  moreover have "length (takeWhile is_az s) \<le> length s"
    by (rule length_takeWhile_le)
  ultimately show ?thesis by auto
qed

text \<open>
  \<^verbatim>\<open>re.findall(r'\b[a-z]+\b', text)\<close>: the matches from left to right, the search
  going on behind each match, or one character further where the attempt fails.
\<close>

function findall_words :: "char option \<Rightarrow> string \<Rightarrow> string list" where
  "findall_words prev [] = []"
| "findall_words prev (c # cs) =
     (case match_word prev (c # cs) of
        Some n \<Rightarrow> take n (c # cs) # findall_words (Some ((c # cs) ! (n - 1))) (drop n (c # cs))
      | None \<Rightarrow> findall_words (Some c) cs)"
  by pat_completeness auto
termination
  by (relation "measure (\<lambda>(prev, s). length s)") (auto dest: match_word_Some)

definition extract_keywords :: "string \<Rightarrow> string list" where
  "extract_keywords text =
     (let text = lower text;
          words = findall_words None text
      in filter (\<lambda>w. 3 \<le> length w \<and> w \<notin> stop_words) words)"

text \<open>
  The tokens in other words, for the comparison with \<^verbatim>\<open>re.findall\<close>. \<open>word_runs\<close>
  are the maximal runs of word characters (the class \<^verbatim>\<open>\w\<close>) of a text, from left to
  right. \<open>letter_runs\<close> are the maximal runs of lowercase ASCII letters, every other
  character a separator: the tokens as the specification words them, and
  \<open>letter_run_keywords\<close> is the extraction in those words.
\<close>

function word_runs :: "string \<Rightarrow> string list" where
  "word_runs [] = []"
| "word_runs (c # cs) =
     (if is_word c then takeWhile is_word (c # cs) # word_runs (dropWhile is_word cs)
      else word_runs cs)"
  by pat_completeness auto
termination
  by (relation "measure length") (auto simp: le_imp_less_Suc length_dropWhile_le)

function letter_runs :: "string \<Rightarrow> string list" where
  "letter_runs [] = []"
| "letter_runs (c # cs) =
     (if is_az c then takeWhile is_az (c # cs) # letter_runs (dropWhile is_az cs)
      else letter_runs cs)"
  by pat_completeness auto
termination
  by (relation "measure length") (auto simp: le_imp_less_Suc length_dropWhile_le)

definition letter_run_keywords :: "string \<Rightarrow> string list" where
  "letter_run_keywords text =
     filter (\<lambda>w. 3 \<le> length w \<and> w \<notin> stop_words) (letter_runs (lower text))"

section \<open>Exceptions\<close>

text \<open>
  The exceptions the scorer's arithmetic can raise. A computation that may raise returns
  a sum: \<open>Inl\<close> the exception, \<open>Inr\<close> the value.
\<close>

datatype exn = OverflowError | ValueError | ZeroDivisionError

type_synonym 'a result = "exn + 'a"

definition bindE :: "'e + 'a \<Rightarrow> ('a \<Rightarrow> 'e + 'b) \<Rightarrow> 'e + 'b" where
  "bindE m f = (case m of Inl e \<Rightarrow> Inl e | Inr v \<Rightarrow> f v)"

section \<open>Floating-point arithmetic\<close>

text \<open>
  Python's \<^verbatim>\<open>float\<close> is the IEEE 754 binary64 format: every operation returns the
  exact result rounded to the nearest representable number, ties to the even significand.
  A finite double is modelled by the rational number it denotes.

  \<open>ilog2 x\<close> is the exponent of a positive \<open>x\<close>: \<open>2 ^ ilog2 x \<le> x < 2 ^ (ilog2 x + 1)\<close>.
\<close>

definition ilog2 :: "rat \<Rightarrow> int" where
  "ilog2 x = (if 1 \<le> x then bitlen \<lfloor>x\<rfloor> - 1 else - bitlen (\<lceil>1 / x\<rceil> - 1))"

definition round_half_even :: "rat \<Rightarrow> int" where
  "round_half_even q =
     (let f = \<lfloor>q\<rfloor>; d = q - of_int f
      in if d < 1 / 2 then f else if 1 / 2 < d then f + 1 else if even f then f else f + 1)"

text \<open>
  Rounding to 53 significant bits; below \<open>2 ^ - 1022\<close> the spacing stays \<open>2 ^ - 1074\<close>
  (subnormal numbers). The exponent is not bounded above here: overflow is decided by
  the operations, which compare the rounded result with \<open>2 ^ 1024\<close>.
\<close>

definition ulp_exp :: "rat \<Rightarrow> int" where
  "ulp_exp x = max (ilog2 \<bar>x\<bar>) (- 1022) - 52"

definition round_double :: "rat \<Rightarrow> rat" where
  "round_double x =
     (if x = 0 then 0
      else let u = 2 powi (ulp_exp x)
           in of_int (round_half_even (x / u)) * u)"

definition overflows :: "rat \<Rightarrow> bool" where
  "overflows r = (2 ^ 1024 \<le> \<bar>r\<bar>)"

text \<open>A float value: a finite double, an infinity (\<open>Inf True\<close> the negative one) or NaN.\<close>

datatype pyfloat = Fin rat | Inf bool | NaN

definition to_float :: "rat \<Rightarrow> pyfloat" where
  "to_float x = (let r = round_double x in if overflows r then Inf (r < 0) else Fin r)"

text \<open>Float multiplication and addition: an overflow gives an infinity, no exception.\<close>

fun fmul :: "pyfloat \<Rightarrow> pyfloat \<Rightarrow> pyfloat" where
  "fmul (Fin a) (Fin b) = to_float (a * b)"
| "fmul (Inf s) (Fin b) = (if b = 0 then NaN else Inf (s \<noteq> (b < 0)))"
| "fmul (Fin a) (Inf t) = (if a = 0 then NaN else Inf ((a < 0) \<noteq> t))"
| "fmul (Inf s) (Inf t) = Inf (s \<noteq> t)"
| "fmul NaN _ = NaN"
| "fmul _ NaN = NaN"

fun fadd :: "pyfloat \<Rightarrow> pyfloat \<Rightarrow> pyfloat" where
  "fadd (Fin a) (Fin b) = to_float (a + b)"
| "fadd (Inf s) (Fin b) = Inf s"
| "fadd (Fin a) (Inf t) = Inf t"
| "fadd (Inf s) (Inf t) = (if s = t then Inf s else NaN)"
| "fadd NaN _ = NaN"
| "fadd _ NaN = NaN"

text \<open>
  An \<^verbatim>\<open>int\<close> operand of a float operation is converted first; the conversion rounds
  and raises \<^verbatim>\<open>OverflowError\<close> when the integer is too large for a double.
\<close>

definition float_of_int :: "int \<Rightarrow> pyfloat result" where
  "float_of_int n =
     (let r = round_double (of_int n) in if overflows r then Inl OverflowError else Inr (Fin r))"

text \<open>
  \<^verbatim>\<open>a / b\<close> on two integers: the exact quotient, rounded once;
  \<^verbatim>\<open>OverflowError\<close> when it is too large for a double.
\<close>

definition true_div :: "int \<Rightarrow> int \<Rightarrow> pyfloat result" where
  "true_div a b =
     (if b = 0 then Inl ZeroDivisionError
      else let r = round_double (of_int a / of_int b)
           in if overflows r then Inl OverflowError else Inr (Fin r))"

text \<open>\<^verbatim>\<open>int(x)\<close> on a float: truncation toward zero; an infinity or NaN raises.\<close>

definition trunc :: "rat \<Rightarrow> int" where
  "trunc r = (if 0 \<le> r then \<lfloor>r\<rfloor> else \<lceil>r\<rceil>)"

definition int_of_float :: "pyfloat \<Rightarrow> int result" where
  "int_of_float x =
     (case x of Fin r \<Rightarrow> Inr (trunc r) | Inf _ \<Rightarrow> Inl OverflowError | NaN \<Rightarrow> Inl ValueError)"

text \<open>\<^verbatim>\<open>n * c\<close> and \<^verbatim>\<open>x * n\<close> with \<open>n\<close> an integer and \<open>c\<close>, \<open>x\<close> floats.\<close>

definition int_times_float :: "int \<Rightarrow> pyfloat \<Rightarrow> pyfloat result" where
  "int_times_float n c = bindE (float_of_int n) (\<lambda>x. Inr (fmul x c))"

definition float_times_int :: "pyfloat \<Rightarrow> int \<Rightarrow> pyfloat result" where
  "float_times_int x n = bindE (float_of_int n) (\<lambda>y. Inr (fmul x y))"

text \<open>The float literal written \<^verbatim>\<open>p/q\<close> in decimal: the double nearest to it.\<close>

definition literal :: "rat \<Rightarrow> pyfloat" where
  "literal x = Fin (round_double x)"

section \<open>Match Scorer\<close>

definition tech_skills :: "string set" where
  "tech_skills = set [''python'', ''java'', ''javascript'', ''sql'', ''aws'', ''azure'', ''gcp'',
     ''react'', ''django'', ''flask'', ''node'', ''docker'', ''kubernetes'',
     ''machine'', ''learning'', ''data'', ''analysis'', ''analytics'', ''api'',
     ''rest'', ''graphql'', ''devops'', ''ci'', ''cd'', ''git'', ''linux'', ''windows'',
     ''agile'', ''scrum'', ''jira'', ''mongodb'', ''postgresql'', ''redis'']"

definition professional_terms :: "string set" where
  "professional_terms = set [''achieved'', ''improved'', ''led'', ''managed'', ''developed'',
     ''implemented'', ''designed'', ''created'', ''optimized'', ''increased'',
     ''delivered'', ''contributed'', ''collaborated'', ''proven'']"

text \<open>\<^verbatim>\<open>int((a / b) * 100)\<close> for two lengths \<open>a\<close> and \<open>b\<close>.\<close>

definition percent :: "nat \<Rightarrow> nat \<Rightarrow> int result" where
  "percent a b =
     bindE (true_div (int a) (int b)) (\<lambda>q.
     bindE (float_times_int q 100) (\<lambda>p.
     int_of_float p))"

text \<open>
  The pattern \<^verbatim>\<open>(?:years?|yrs)\<close> under \<^verbatim>\<open>re.IGNORECASE\<close> at the start of \<open>s\<close>:
  the length of what it matches. A character matches a lower-case pattern letter when
  its lower case is that letter.
\<close>

definition starts_with_nocase :: "string \<Rightarrow> string \<Rightarrow> bool" where
  "starts_with_nocase pat s = (length pat \<le> length s \<and> lower (take (length pat) s) = pat)"

definition match_unit :: "string \<Rightarrow> nat option" where
  "match_unit s =
     (if starts_with_nocase ''year'' s
      then (if starts_with_nocase ''s'' (drop 4 s) then Some 5 else Some 4)
      else if starts_with_nocase ''yrs'' s then Some 3
      else None)"

fun first_some :: "('a \<Rightarrow> 'b option) \<Rightarrow> 'a list \<Rightarrow> 'b option" where
  "first_some f [] = None"
| "first_some f (x # xs) = (case f x of Some y \<Rightarrow> Some y | None \<Rightarrow> first_some f xs)"

text \<open>
  One attempt of \<^verbatim>\<open>(\d+)\s*(?:years?|yrs)\<close> at the start of \<open>s\<close>. Both repetitions
  are greedy: the longest run is tried first, then shorter ones. The result is the text
  of the group \<^verbatim>\<open>(\d+)\<close> and the length of the whole match.
\<close>

definition match_years :: "string \<Rightarrow> (string \<times> nat) option" where
  "match_years s =
     first_some (\<lambda>nd.
       first_some (\<lambda>ns.
         (case match_unit (drop (nd + ns) s) of
            None \<Rightarrow> None
          | Some k \<Rightarrow> Some (take nd s, nd + ns + k)))
         (rev [0 ..< Suc (length (takeWhile is_space (drop nd s)))]))
       (rev [1 ..< Suc (length (takeWhile is_digit s))])"

lemma first_some_SomeD: "first_some f xs = Some y \<Longrightarrow> \<exists>x \<in> set xs. f x = Some y"
  by (induction xs) (auto split: option.splits)

lemma match_years_Some: "match_years s = Some (g, n) \<Longrightarrow> 0 < n"
proof -
  assume "match_years s = Some (g, n)"
  then obtain nd where nd: "nd \<in> set (rev [1 ..< Suc (length (takeWhile is_digit s))])"
    and "first_some (\<lambda>ns.
         (case match_unit (drop (nd + ns) s) of
            None \<Rightarrow> None
          | Some k \<Rightarrow> Some (take nd s, nd + ns + k)))
         (rev [0 ..< Suc (length (takeWhile is_space (drop nd s)))]) = Some (g, n)"
    unfolding match_years_def by (blast dest: first_some_SomeD)
  then obtain ns where
    "(case match_unit (drop (nd + ns) s) of
        None \<Rightarrow> None | Some k \<Rightarrow> Some (take nd s, nd + ns + k)) = Some (g, n)"
    by (blast dest: first_some_SomeD)
  then have "nd \<le> n"
    by (auto split: option.splits)
  with nd show ?thesis by auto
qed

text \<open>
  \<^verbatim>\<open>re.findall(r'(\d+)\s*(?:years?|yrs)', text, re.IGNORECASE)\<close>: the group of each
  match, from left to right.
\<close>

function findall_years :: "string \<Rightarrow> string list" where
  "findall_years [] = []"
| "findall_years (c # cs) =
     (case match_years (c # cs) of
        Some (g, n) \<Rightarrow> g # findall_years (drop n (c # cs))
      | None \<Rightarrow> findall_years cs)"
  by pat_completeness auto
termination
  by (relation "measure length") (auto dest: match_years_Some)

text \<open>\<^verbatim>\<open>int(digits)\<close> for a string of decimal digits.\<close>

definition int_of_digits :: "string \<Rightarrow> int" where
  "int_of_digits ds = foldl (\<lambda>acc c. 10 * acc + (int (ord c) - 48)) 0 ds"

text \<open>Lines 100 to 106: the experience match from the raw resume text.\<close>

definition experience_match :: "string \<Rightarrow> int result" where
  "experience_match resume_text =
     (let years_match = findall_years resume_text
      in case years_match of
           [] \<Rightarrow> Inr 0
         | g # _ \<Rightarrow>
             (let years = int_of_digits g
              in if 0 < years
                 then bindE (true_div years 10) (\<lambda>q.
                      bindE (float_times_int q 100) (\<lambda>p.
                      bindE (int_of_float p) (\<lambda>v.
                      Inr (min v 100))))
                 else Inr 0))"

text \<open>Lines 109 to 113: the tone match from the resume keyword set.\<close>

definition tone_match :: "string set \<Rightarrow> int result" where
  "tone_match resume_set =
     (let prof_in_resume = resume_set \<inter> professional_terms
      in percent (card prof_in_resume) (max 1 (card professional_terms)))"

text \<open>Lines 116 and 117: the overall score, the sum taken from left to right.\<close>

definition overall_score :: "int \<Rightarrow> int \<Rightarrow> int \<Rightarrow> int \<Rightarrow> int result" where
  "overall_score skills experience keywords tone =
     bindE (int_times_float skills (literal (4 / 10))) (\<lambda>a.
     bindE (int_times_float experience (literal (3 / 10))) (\<lambda>b.
     bindE (int_times_float keywords (literal (2 / 10))) (\<lambda>c.
     bindE (int_times_float tone (literal (1 / 10))) (\<lambda>d.
     int_of_float (fadd (fadd (fadd a b) c) d)))))"

text \<open>\<^verbatim>\<open>str(n)\<close> for an integer, as the f-string of the summary formats it.\<close>

fun str_nat :: "nat \<Rightarrow> string" where
  "str_nat n = (if n < 10 then [chr (48 + n)] else str_nat (n div 10) @ [chr (48 + n mod 10)])"

definition str_int :: "int \<Rightarrow> string" where
  "str_int i = (if i < 0 then CHR ''-'' # str_nat (nat (- i)) else str_nat (nat i))"

definition summary_text :: "int \<Rightarrow> int \<Rightarrow> string" where
  "summary_text keywords skills =
     ''Your resume matches '' @ str_int keywords @ ''% of job keywords with ''
       @ str_int skills @ ''% skill alignment.''"

definition calculate_match_score :: "string \<Rightarrow> string \<Rightarrow> (int \<times> int \<times> int \<times> int \<times> string) result" where
  "calculate_match_score resume_text jd_text =
     (let resume_keywords = extract_keywords resume_text;
          jd_keywords = extract_keywords jd_text;
          jd_unique = set jd_keywords;
          resume_set = set resume_keywords
      in if jd_unique = {} then Inr (0, 0, 0, 0, ''Unable to analyze'')
         else
           let matched_keywords = jd_unique \<inter> resume_set
           in bindE (percent (card matched_keywords) (card jd_unique)) (\<lambda>keywords.
              let jd_skills = jd_unique \<inter> tech_skills;
                  resume_skills = resume_set \<inter> tech_skills;
                  matched_skills = jd_skills \<inter> resume_skills
              in bindE (if jd_skills \<noteq> {} then percent (card matched_skills) (card jd_skills)
                        else Inr 0) (\<lambda>skills.
                 bindE (experience_match resume_text) (\<lambda>experience.
                 bindE (tone_match resume_set) (\<lambda>tone.
                 bindE (overall_score skills experience keywords tone) (\<lambda>overall.
                 Inr (overall, skills, experience, keywords,
                      summary_text keywords skills)))))))"

section \<open>Text Extractor\<close>

text \<open>
  The document libraries are outside the repository: they are parameters of the model.
  \<open>'f\<close> is the type of uploaded file streams, \<open>'e\<close> the type of the exceptions
  (instances of \<^verbatim>\<open>Exception\<close>) a library call can raise.
  \<^item> \<open>seek_start\<close>: \<^verbatim>\<open>file_stream.seek(0)\<close>;
  \<^item> \<open>pdf_page_texts\<close>: \<^verbatim>\<open>fitz.open(stream=file_stream.read(), filetype="pdf")\<close> and
    \<^verbatim>\<open>page.get_text()\<close> for each page;
  \<^item> \<open>docx_paragraph_texts\<close>: \<^verbatim>\<open>docx.Document(file_stream)\<close> and \<^verbatim>\<open>para.text\<close> for
    each paragraph;
  \<^item> \<open>read_utf8\<close>: \<^verbatim>\<open>file_stream.read().decode("utf-8")\<close>.
\<close>

record ('f, 'e) doc_library =
  seek_start :: "'f \<Rightarrow> 'e + unit"
  pdf_page_texts :: "'f \<Rightarrow> 'e + string list"
  docx_paragraph_texts :: "'f \<Rightarrow> 'e + string list"
  read_utf8 :: "'f \<Rightarrow> 'e + string"

text \<open>\<^verbatim>\<open>s.endswith(suffix)\<close> and \<^verbatim>\<open>sep.join(parts)\<close>.\<close>

definition endswith :: "string \<Rightarrow> string \<Rightarrow> bool" where
  "endswith s suffix =
     (length suffix \<le> length s \<and> drop (length s - length suffix) s = suffix)"

fun join :: "string \<Rightarrow> string list \<Rightarrow> string" where
  "join sep [] = []"
| "join sep [x] = x"
| "join sep (x # y # ys) = x @ sep @ join sep (y # ys)"

definition nl :: string where
  "nl = [CHR 0x0A]"

text \<open>\<^verbatim>\<open>try: body except Exception as e: handler(e)\<close>.\<close>

definition try_except :: "'e + 'a \<Rightarrow> ('e \<Rightarrow> 'e + 'a) \<Rightarrow> 'e + 'a" where
  "try_except body handler = (case body of Inl e \<Rightarrow> handler e | Inr v \<Rightarrow> Inr v)"

text \<open>
  The handler of \<^verbatim>\<open>extract_text\<close> logs the exception and returns the empty string.
\<close>

definition extract_text :: "('f, 'e) doc_library \<Rightarrow> 'f \<Rightarrow> string \<Rightarrow> 'e + string" where
  "extract_text lib file_stream filename =
     try_except
       (bindE (seek_start lib file_stream) (\<lambda>_.
          if endswith filename ''.pdf''
          then bindE (pdf_page_texts lib file_stream) (\<lambda>pages. Inr (join [] pages))
          else if endswith filename ''.docx''
          then bindE (docx_paragraph_texts lib file_stream) (\<lambda>paras. Inr (join nl paras))
          else if endswith filename ''.txt''
          then read_utf8 lib file_stream
          else Inr []))
       (\<lambda>e. Inr [])"

section \<open>The request handlers\<close>

text \<open>
  The backend is \<^verbatim>\<open>model.generate_content(prompt)\<close> followed by \<^verbatim>\<open>response.text\<close>:
  a completion or an exception. \<open>None\<close> stands for the global \<^verbatim>\<open>model\<close> being
  \<^verbatim>\<open>None\<close> (no API key, or the initialisation failed).
\<close>

type_synonym 'e backend = "(string \<Rightarrow> 'e + string) option"

text \<open>
  What a handler's \<^verbatim>\<open>except Exception as e\<close> catches: an exception of the scorer's
  arithmetic or one raised by a library or the backend.
\<close>

datatype 'e failure = Scoring exn | Raised 'e

record customized =
  customized_resume :: string
  out_resume_text :: string
  out_jd_text :: string
  out_overall_score :: int
  out_skills_match :: int
  out_experience_match :: int
  out_keywords_match :: int
  out_match_summary :: string

text \<open>
  The responses: \<open>Error_response msg status\<close> is \<^verbatim>\<open>jsonify({"error": msg}), status\<close>;
  \<open>Exception_response e\<close> is \<^verbatim>\<open>jsonify({"error": str(e)}), 500\<close>; the others are the
  successful bodies, sent with status 200.
\<close>

datatype 'e response =
    Error_response string nat
  | Exception_response "'e failure"
  | Customized customized
  | Reply string

subsection \<open>Tailor\<close>

text \<open>
  \<^verbatim>\<open>s.replace(fence, '')\<close> with \<open>fence\<close> three backquotes: every occurrence, found
  from left to right, is removed.
\<close>

fun remove_fences :: "string \<Rightarrow> string" where
  "remove_fences (a # b # c # rest) =
     (if a = CHR 0x60 \<and> b = CHR 0x60 \<and> c = CHR 0x60 then remove_fences rest
      else a # remove_fences (b # c # rest))"
| "remove_fences s = s"

text \<open>\<^verbatim>\<open>s.strip()\<close>: leading and trailing whitespace removed.\<close>

definition strip :: "string \<Rightarrow> string" where
  "strip s = rev (dropWhile is_space (rev (dropWhile is_space s)))"

definition tailor_prompt :: "string \<Rightarrow> string \<Rightarrow> string" where
  "tailor_prompt jd_text resume_text =
     ''Tailor this resume to match the job description. Rewrite the summary and bullet points to include relevant keywords and skills from the JD. Keep it professional and concise. Return only the tailored resume text.''
     @ nl @ nl @ ''**Job Description:**'' @ nl @ jd_text
     @ nl @ nl @ ''**Original Resume:**'' @ nl @ resume_text
     @ nl @ nl @ ''**Tailored Resume:**''"

record 'f upload =
  stream :: 'f
  filename :: string

record 'f uploads =
  resume :: "'f upload option"
  job_description :: "'f upload option"

definition lift_exn :: "'e + 'a \<Rightarrow> 'e failure + 'a" where
  "lift_exn m = (case m of Inl e \<Rightarrow> Inl (Raised e) | Inr v \<Rightarrow> Inr v)"

definition lift_scoring :: "exn + 'a \<Rightarrow> 'e failure + 'a" where
  "lift_scoring m = (case m of Inl e \<Rightarrow> Inl (Scoring e) | Inr v \<Rightarrow> Inr v)"

definition customize_resume :: "('f, 'e) doc_library \<Rightarrow> 'e backend \<Rightarrow> 'f uploads \<Rightarrow> 'e response" where
  "customize_resume lib model files =
     (case model of
        None \<Rightarrow> Error_response ''Model not available'' 500
      | Some generate \<Rightarrow>
          (case (resume files, job_description files) of
             (Some resume_file, Some jd_file) \<Rightarrow>
               (case
                  bindE (lift_exn (extract_text lib (stream resume_file) (filename resume_file)))
                    (\<lambda>resume_text.
                  bindE (lift_exn (extract_text lib (stream jd_file) (filename jd_file)))
                    (\<lambda>jd_text.
                  if resume_text = [] \<or> jd_text = []
                  then Inr (Error_response ''Could not extract text from files'' 400)
                  else
                    bindE (lift_scoring (calculate_match_score resume_text jd_text))
                      (\<lambda>(overall, skills, experience, keywords, summary).
                    bindE (lift_exn (generate (tailor_prompt jd_text resume_text)))
                      (\<lambda>raw.
                    let tailored = strip (remove_fences raw)
                    in Inr (Customized \<lparr>
                         customized_resume = tailored,
                         out_resume_text = resume_text,
                         out_jd_text = jd_text,
                         out_overall_score = overall,
                         out_skills_match = skills,
                         out_experience_match = experience,
                         out_keywords_match = keywords,
                         out_match_summary = summary \<rparr>)))))
                of Inl e \<Rightarrow> Exception_response e
                 | Inr r \<Rightarrow> r)
           | _ \<Rightarrow> Error_response ''Missing files'' 400))"

subsection \<open>Chat\<close>

text \<open>
  \<^verbatim>\<open>str.title()\<close>: a character that follows a cased character is lower-cased, any
  other character is title-cased. Two Latin-1 letters have their title case outside the
  range of characters modelled here (U+00B5 and U+00FF); they are left as they are, so a
  role containing one of them is outside the model.
\<close>

definition is_cased :: "char \<Rightarrow> bool" where
  "is_cased c =
     (let n = ord c
      in (65 \<le> n \<and> n \<le> 90) \<or> (97 \<le> n \<and> n \<le> 122) \<or> n = 170 \<or> n = 181 \<or> n = 186
         \<or> (192 \<le> n \<and> n \<le> 214) \<or> (216 \<le> n \<and> n \<le> 246) \<or> (248 \<le> n \<and> n \<le> 255))"

definition title_char :: "char \<Rightarrow> string" where
  "title_char c =
     (let n = ord c
      in if (97 \<le> n \<and> n \<le> 122) \<or> (224 \<le> n \<and> n \<le> 246) \<or> (248 \<le> n \<and> n \<le> 254)
         then [chr (n - 32)]
         else if n = 223 then ''Ss''
         else [c])"

fun title_from :: "bool \<Rightarrow> string \<Rightarrow> string" where
  "title_from previous_is_cased [] = []"
| "title_from previous_is_cased (c # cs) =
     (if previous_is_cased then [lower_char c] else title_char c) @ title_from (is_cased c) cs"

definition title :: "string \<Rightarrow> string" where
  "title s = title_from False s"

record turn =
  role :: string
  content :: string

text \<open>
  The JSON body of a chat request. \<open>None\<close> is a key that is absent, for which
  \<^verbatim>\<open>data.get\<close> returns \<^verbatim>\<open>None\<close> or the given default.
\<close>

record chat_request =
  req_resume_text :: "string option"
  req_history :: "turn list option"
  req_message :: "string option"

text \<open>\<^verbatim>\<open>not x\<close> for what \<^verbatim>\<open>data.get\<close> returned: \<^verbatim>\<open>None\<close> or the empty string.\<close>

definition falsy :: "string option \<Rightarrow> bool" where
  "falsy x = (case x of None \<Rightarrow> True | Some s \<Rightarrow> s = [])"

definition system_prompt :: "string \<Rightarrow> string" where
  "system_prompt resume_text =
     ''You are a helpful resume coach. Answer questions about this resume and provide actionable feedback.''
     @ nl @ nl @ ''**Resume:**'' @ nl @ resume_text
     @ nl @ nl @ ''Be concise, professional, and specific.''"

text \<open>Lines 231 to 234: the loop appends one line for each turn.\<close>

definition chat_prompt :: "string \<Rightarrow> turn list \<Rightarrow> string \<Rightarrow> string" where
  "chat_prompt resume_text history user_message =
     (let full_prompt = system_prompt resume_text @ nl @ nl @ ''Conversation:'' @ nl;
          full_prompt = foldl (\<lambda>full_prompt turn.
                           full_prompt @ title (role turn) @ '': '' @ content turn @ nl)
                         full_prompt history
      in full_prompt @ nl @ ''User: '' @ user_message @ nl @ ''Assistant:'')"

definition chat_with_bot :: "'e backend \<Rightarrow> chat_request \<Rightarrow> 'e response" where
  "chat_with_bot model data =
     (case model of
        None \<Rightarrow> Error_response ''Model not available'' 500
      | Some generate \<Rightarrow>
          (let resume_text = req_resume_text data;
               history = (case req_history data of None \<Rightarrow> [] | Some h \<Rightarrow> h);
               user_message = req_message data
           in if falsy resume_text \<or> falsy user_message
              then Error_response ''Missing data'' 400
              else
                (case generate (chat_prompt (the resume_text) history (the user_message)) of
                   Inl e \<Rightarrow> Exception_response (Raised e)
                 | Inr text \<Rightarrow> Reply text)))"

section \<open>The score arithmetic\<close>

text \<open>
  The value of the arithmetic of \<^verbatim>\<open>calculate_match_score\<close> where it raises nothing,
  operation for operation as Python evaluates it on doubles:
  \<open>double_percentage a b\<close> is the value of \<^verbatim>\<open>int((a / b) * 100)\<close>, the quotient rounded
  and then the product rounded, and \<open>double_weighted_score\<close> is the value of
  \<^verbatim>\<open>int((skills * 0.4) + (experience * 0.3) + (keywords * 0.2) + (tone * 0.1))\<close>,
  the four literals, the four products and the three sums rounded, from left to right.
\<close>

definition double_percentage :: "nat \<Rightarrow> nat \<Rightarrow> int" where
  "double_percentage a b = trunc (round_double (round_double (of_nat a / of_nat b) * 100))"

definition double_weighted_score :: "int \<Rightarrow> int \<Rightarrow> int \<Rightarrow> int \<Rightarrow> int" where
  "double_weighted_score skills experience keywords tone =
     trunc (round_double (round_double (round_double
       (round_double (of_int skills * round_double (4 / 10))
        + round_double (of_int experience * round_double (3 / 10)))
        + round_double (of_int keywords * round_double (2 / 10)))
        + round_double (of_int tone * round_double (1 / 10))))"

text \<open>
  The three component scores that \<^verbatim>\<open>calculate_match_score\<close> computes from the keyword
  lists of the two texts, with the same double arithmetic: lines 83 and 84 of the
  source, lines 93 to 97, and lines 112 and 113.
\<close>

definition keywords_score :: "string list \<Rightarrow> string list \<Rightarrow> int" where
  "keywords_score resume_keywords jd_keywords =
     double_percentage (card (set resume_keywords \<inter> set jd_keywords)) (card (set jd_keywords))"

definition skills_score :: "string list \<Rightarrow> string list \<Rightarrow> int" where
  "skills_score resume_keywords jd_keywords =
     (let jd_skills = set jd_keywords \<inter> tech_skills;
          resume_skills = set resume_keywords \<inter> tech_skills
      in if jd_skills = {} then 0
         else double_percentage (card (jd_skills \<inter> resume_skills)) (card jd_skills))"

definition tone_score :: "string list \<Rightarrow> int" where
  "tone_score resume_keywords =
     double_percentage (card (set resume_keywords \<inter> professional_terms)) 14"

section \<open>The score formulas of the specification\<close>

text \<open>
  The two formulas in the words of the specification, in exact arithmetic on the
  rationals: the share \<open>a / b * 100\<close> truncated toward zero, and
  \<open>truncate(skills*0.4 + experience*0.3 + keywords*0.2 + tone*0.1)\<close>. The scorer is
  compared with them below.
\<close>

definition exact_percentage :: "nat \<Rightarrow> nat \<Rightarrow> int" where
  "exact_percentage a b = trunc (of_nat a / of_nat b * 100)"

definition exact_weighted_score :: "int \<Rightarrow> int \<Rightarrow> int \<Rightarrow> int \<Rightarrow> int" where
  "exact_weighted_score skills experience keywords tone =
     trunc (of_int skills * (4 / 10) + of_int experience * (3 / 10)
            + of_int keywords * (2 / 10) + of_int tone * (1 / 10))"

(*THEOREMS*)
section \<open>The keywords as runs of word characters\<close>

text \<open>
  \<^verbatim>\<open>\b[a-z]+\b\<close> matches a run of letters only where it is not next to another word
  character, so \<^verbatim>\<open>re.findall\<close> returns the maximal runs of word characters that
  consist of the letters a to z, and nothing from a run that holds a digit, an
  underscore or a letter beyond ASCII.
\<close>

lemma is_az_word: "is_az c \<Longrightarrow> is_word c"
  by (auto simp: is_az_def is_word_def Let_def)

lemma match_word_not_az: "\<not> is_az d \<Longrightarrow> match_word prev (d # cs) = None"
  by (simp add: match_word_def)

lemma findall_words_not_az:
  "\<not> is_az d \<Longrightarrow> findall_words prev (d # cs) = findall_words (Some d) cs"
  by (simp add: match_word_not_az)

lemma match_word_inside: "is_word p \<Longrightarrow> is_word c \<Longrightarrow> match_word (Some p) (c # cs) = None"
  by (simp add: match_word_def word_boundary_def is_word_opt_def hd_opt_def)

lemma findall_words_inside:
  assumes "is_word p" "list_all is_word r"
  shows "findall_words (Some p) (r @ rest) = findall_words (Some (last (p # r))) rest"
  using assms
proof (induction r arbitrary: p)
  case Nil
  then show ?case by simp
next
  case (Cons c r)
  then have "findall_words (Some p) ((c # r) @ rest) = findall_words (Some c) (r @ rest)"
    by (simp add: match_word_inside)
  also have "\<dots> = findall_words (Some (last (c # r))) rest"
    using Cons by simp
  finally show ?case by simp
qed

lemma findall_words_prev:
  assumes "rest = [] \<or> \<not> is_word (hd rest)"
  shows "findall_words p rest = findall_words None rest"
proof (cases rest)
  case Nil
  then show ?thesis by simp
next
  case (Cons d cs)
  then have na: "\<not> is_az d" using assms is_az_word by auto
  show ?thesis unfolding Cons by (simp only: findall_words_not_az [OF na])
qed

lemma match_word_mixed:
  assumes "list_all is_word r" "\<not> list_all is_az r"
  shows "match_word prev (r @ rest) = None"
proof -
  let ?s = "r @ rest"
  let ?k = "length (takeWhile is_az ?s)"
  obtain x where x: "x \<in> set r" "\<not> is_az x" using assms(2) by (auto simp: list_all_iff)
  then have tw: "takeWhile is_az ?s = takeWhile is_az r"
    by (rule takeWhile_append1)
  have "takeWhile is_az r \<noteq> r"
    using x by (auto simp: takeWhile_eq_all_conv)
  then have "length (takeWhile is_az r) \<noteq> length r"
    using takeWhile_eq_take [of is_az r] by auto
  then have k: "?k < length r"
    unfolding tw using length_takeWhile_le [of is_az r] by simp
  have "\<not> word_boundary (Some (?s ! (n - 1))) (hd_opt (drop n ?s))"
    if "n \<in> set (rev [1 ..< Suc ?k])" for n
  proof -
    from that k have n: "1 \<le> n" "n < length r" by auto
    then have "n - 1 < length r" by simp
    then have a: "?s ! (n - 1) = r ! (n - 1)" by (simp only: nth_append if_True)
    have b: "drop n ?s = r ! n # drop (Suc n) r @ rest"
      using n by (simp add: Cons_nth_drop_Suc)
    have "is_word (r ! (n - 1))" "is_word (r ! n)"
      using assms(1) n by (simp_all add: list_all_length)
    then show ?thesis
      by (simp only: a b) (simp add: word_boundary_def is_word_opt_def hd_opt_def)
  qed
  then have "find (\<lambda>n. word_boundary (Some (?s ! (n - 1))) (hd_opt (drop n ?s)))
               (rev [1 ..< Suc ?k]) = None"
    unfolding find_None_iff by blast
  then show ?thesis by (simp add: match_word_def)
qed

lemma findall_words_mixed:
  assumes "list_all is_word r" "\<not> list_all is_az r"
  shows "findall_words prev (r @ rest) = findall_words (Some (last r)) rest"
proof (cases r)
  case Nil
  then show ?thesis using assms by simp
next
  case (Cons c r')
  have "findall_words prev (r @ rest) = findall_words (Some c) (r' @ rest)"
    using match_word_mixed [OF assms, of prev rest] by (simp add: Cons)
  also have "\<dots> = findall_words (Some (last (c # r'))) rest"
    using assms(1) by (intro findall_words_inside) (simp_all add: Cons)
  finally show ?thesis by (simp only: Cons)
qed

lemma match_word_letters:
  assumes "\<not> is_word_opt prev" "r \<noteq> []" "list_all is_az r" "rest = [] \<or> \<not> is_word (hd rest)"
  shows "match_word prev (r @ rest) = Some (length r)"
proof -
  let ?s = "r @ rest"
  have "takeWhile is_az rest = []"
    using assms(4) is_az_word by (cases rest) auto
  then have tw: "takeWhile is_az ?s = r"
    using assms(3) by (simp add: takeWhile_append2 list_all_iff)
  have w: "is_word (hd r)" "is_word (last r)"
    using assms(2,3) is_az_word by (simp_all add: list_all_iff)
  have b1: "word_boundary prev (hd_opt ?s)"
    using assms(1,2) w(1) by (cases r) (simp_all add: word_boundary_def is_word_opt_def hd_opt_def)
  have "?s ! (length r - 1) = last r"
    using assms(2) by (simp add: nth_append last_conv_nth)
  moreover have "\<not> is_word_opt (hd_opt rest)"
    using assms(4) by (cases rest) (simp_all add: is_word_opt_def hd_opt_def)
  ultimately have b2: "word_boundary (Some (?s ! (length r - 1))) (hd_opt (drop (length r) ?s))"
    using w(2) by (simp add: word_boundary_def is_word_opt_def)
  have "rev [1 ..< Suc (length r)] = length r # rev [1 ..< length r]"
    using assms(2) by (simp add: Suc_le_eq)
  then show ?thesis
    using b1 b2 by (simp add: match_word_def tw)
qed

lemma findall_words_letters:
  assumes "\<not> is_word_opt prev" "r \<noteq> []" "list_all is_az r" "rest = [] \<or> \<not> is_word (hd rest)"
  shows "findall_words prev (r @ rest) = r # findall_words (Some (last r)) rest"
proof (cases r)
  case Nil
  then show ?thesis using assms(2) by simp
next
  case (Cons c r')
  have "(r @ rest) ! (length r - 1) = last r"
    using assms(2) by (simp add: nth_append last_conv_nth)
  then show ?thesis
    using match_word_letters [OF assms] by (simp add: Cons)
qed

lemma findall_words_runs:
  "\<not> is_word_opt prev \<Longrightarrow> findall_words prev s = filter (list_all is_az) (word_runs s)"
proof (induction s arbitrary: prev rule: word_runs.induct)
  case 1
  then show ?case by simp
next
  case (2 c cs)
  show ?case
  proof (cases "is_word c")
    case False
    then have "\<not> is_az c" using is_az_word by blast
    then have "findall_words prev (c # cs) = findall_words (Some c) cs"
      by (rule findall_words_not_az)
    also have "\<dots> = filter (list_all is_az) (word_runs cs)"
      using False by (intro 2(2)) (simp_all add: is_word_opt_def)
    finally show ?thesis using False by simp
  next
    case True
    let ?r = "takeWhile is_word (c # cs)" and ?rest = "dropWhile is_word cs"
    have split: "c # cs = ?r @ ?rest" using True by simp
    have r: "list_all is_word ?r" "?r \<noteq> []"
      using True by (auto simp: list_all_iff dest: set_takeWhileD)
    have rest: "?rest = [] \<or> \<not> is_word (hd ?rest)"
      using hd_dropWhile [of is_word cs] by blast
    have ih: "findall_words q ?rest = filter (list_all is_az) (word_runs ?rest)" for q
      using findall_words_prev [OF rest, of q] 2(1) [OF True, of None]
      by (simp add: is_word_opt_def)
    show ?thesis
    proof (cases "list_all is_az ?r")
      case az: True
      have "findall_words prev (?r @ ?rest) = ?r # findall_words (Some (last ?r)) ?rest"
        using 2(3) r(2) az rest by (rule findall_words_letters)
      then show ?thesis using True az ih split by simp
    next
      case mixed: False
      have "findall_words prev (?r @ ?rest) = findall_words (Some (last ?r)) ?rest"
        using r(1) mixed by (rule findall_words_mixed)
      then show ?thesis using True mixed ih split by simp
    qed
  qed
qed

lemma extract_keywords_runs:
  "extract_keywords text =
     filter (\<lambda>w. 3 \<le> length w \<and> w \<notin> stop_words)
       (filter (list_all is_az) (word_runs (lower text)))"
  by (simp add: extract_keywords_def Let_def findall_words_runs is_word_opt_def)

section \<open>Properties of the rounding\<close>

lemma powi_nonneg: "0 \<le> n \<Longrightarrow> (2::rat) powi n = 2 ^ nat n"
  by (simp add: power_int_def)

lemma powi_neg: "0 \<le> n \<Longrightarrow> (2::rat) powi (- n) = 1 / 2 ^ nat n"
  by (simp add: power_int_def field_simps power_inverse)

lemma ilog2_bounds_ge1:
  assumes "1 \<le> (x::rat)"
  shows "2 powi (ilog2 x) \<le> x" and "x < 2 powi (ilog2 x + 1)"
proof -
  let ?m = "\<lfloor>x\<rfloor>"
  have m: "0 < ?m" using assms by simp
  from bitlen_bounds [OF m] have lo: "2 ^ nat (bitlen ?m - 1) \<le> ?m" and hi: "?m < 2 ^ nat (bitlen ?m)"
    by auto
  have b1: "1 \<le> bitlen ?m" using m by (simp add: bitlen_alt_def)
  have "(2::rat) powi (bitlen ?m - 1) = of_int (2 ^ nat (bitlen ?m - 1))"
    using b1 by (simp add: powi_nonneg)
  also have "\<dots> \<le> of_int ?m" using lo by (simp only: of_int_le_iff)
  also have "\<dots> \<le> x" by simp
  finally show "2 powi (ilog2 x) \<le> x" using assms by (simp add: ilog2_def)
  have "?m + 1 \<le> 2 ^ nat (bitlen ?m)" using hi by simp
  then have "(of_int (?m + 1) :: rat) \<le> of_int (2 ^ nat (bitlen ?m))"
    by (simp only: of_int_le_iff)
  moreover have "x < of_int (?m + 1)" by linarith
  ultimately have "x < of_int (2 ^ nat (bitlen ?m))" by (rule less_le_trans [rotated])
  also have "\<dots> = 2 powi (bitlen ?m)" using b1 by (simp add: powi_nonneg)
  finally show "x < 2 powi (ilog2 x + 1)" using assms by (simp add: ilog2_def)
qed

lemma ilog2_bounds_lt1:
  assumes "0 < (x::rat)" "x < 1"
  shows "2 powi (ilog2 x) \<le> x" and "x < 2 powi (ilog2 x + 1)"
proof -
  let ?c = "\<lceil>1 / x\<rceil>"
  let ?b = "bitlen (?c - 1)"
  have y: "1 < 1 / x" using assms by simp
  then have c: "0 < ?c - 1" by linarith
  from bitlen_bounds [OF c] have lo: "2 ^ nat (?b - 1) \<le> ?c - 1" and hi: "?c - 1 < 2 ^ nat ?b"
    by auto
  have b1: "1 \<le> ?b" using c by (simp add: bitlen_alt_def)
  have il: "ilog2 x = - ?b" using assms by (simp add: ilog2_def)
  have "?c \<le> 2 ^ nat ?b" using hi by simp
  then have "(of_int ?c :: rat) \<le> of_int (2 ^ nat ?b)" by (simp only: of_int_le_iff)
  then have "(of_int ?c :: rat) \<le> 2 ^ nat ?b" by simp
  moreover have "1 / x \<le> of_int ?c" by linarith
  ultimately have "1 / x \<le> 2 ^ nat ?b" by (rule order_trans [rotated])
  then have "1 / 2 ^ nat ?b \<le> x" using assms(1)
    by (simp add: field_simps)
  then show "2 powi (ilog2 x) \<le> x" using b1 by (simp add: il powi_neg)
  have "(of_int (2 ^ nat (?b - 1)) :: rat) \<le> of_int (?c - 1)" using lo by (simp only: of_int_le_iff)
  then have "(2 ^ nat (?b - 1) :: rat) \<le> of_int (?c - 1)" by simp
  moreover have "of_int (?c - 1) < 1 / x" by linarith
  ultimately have "2 ^ nat (?b - 1) < 1 / x" by (rule le_less_trans)
  then have "x < 1 / 2 ^ nat (?b - 1)" using assms(1)
    by (simp add: field_simps)
  moreover have "- ?b + 1 = - (?b - 1)" by simp
  ultimately show "x < 2 powi (ilog2 x + 1)" using b1 
    by (simp only: il powi_neg [of "?b - 1"]) 
qed

lemma ilog2_bounds:
  assumes "0 < (x::rat)"
  shows "2 powi (ilog2 x) \<le> x" and "x < 2 powi (ilog2 x + 1)"
  using assms ilog2_bounds_ge1 [of x] ilog2_bounds_lt1 [of x] by (cases "1 \<le> x"; simp)+


lemma round_half_even_bounds: "\<lfloor>q\<rfloor> \<le> round_half_even q" "round_half_even q \<le> \<lfloor>q\<rfloor> + 1"
  by (simp_all add: round_half_even_def Let_def)

lemma round_half_even_of_int [simp]: "round_half_even (of_int n) = n"
  by (simp add: round_half_even_def)

lemma round_half_even_mono:
  assumes "q \<le> q'"
  shows "round_half_even q \<le> round_half_even q'"
proof (cases "\<lfloor>q\<rfloor> = \<lfloor>q'\<rfloor>")
  case True
  then show ?thesis using assms
    by (auto simp: round_half_even_def Let_def)
next
  case False
  then have "\<lfloor>q\<rfloor> < \<lfloor>q'\<rfloor>" using assms floor_mono [OF assms] by linarith
  then have "round_half_even q \<le> \<lfloor>q'\<rfloor>"
    using round_half_even_bounds(2) [of q] by linarith
  then show ?thesis using round_half_even_bounds(1) [of q'] by linarith
qed

lemma round_half_even_nonneg: "0 \<le> q \<Longrightarrow> 0 \<le> round_half_even q"
  using round_half_even_mono [of 0 q] round_half_even_of_int [of 0] by simp

lemma powi_pos [simp]: "0 < (2::rat) powi n"
  by simp

lemma powi_add: "(2::rat) powi (a + b) = 2 powi a * 2 powi b"
  by (simp add: power_int_add)

lemma powi_53: "(2::rat) powi 53 = of_int (2 ^ 53)"
  by (simp add: power_int_def)

lemma powi_52: "(2::rat) powi 52 = of_int (2 ^ 52)"
  by (simp add: power_int_def)

lemma div_right_mono_pos: "0 < u \<Longrightarrow> a \<le> b \<Longrightarrow> a / u \<le> b / (u::rat)"
  by (simp add: divide_right_mono)

lemma mult_right_mono_pos: "0 < u \<Longrightarrow> a \<le> b \<Longrightarrow> a * u \<le> b * (u::rat)"
  by (simp add: mult_right_mono)

lemma powi_mono: "a \<le> b \<Longrightarrow> (2::rat) powi a \<le> 2 powi b"
  by (rule power_int_increasing) simp_all

lemma powi_less_imp_less: "(2::rat) powi a < 2 powi b \<Longrightarrow> a < b"
  using powi_mono [of b a] by (cases "a < b") auto

lemma ilog2_mono:
  assumes "0 < x" "x \<le> y"
  shows "ilog2 x \<le> ilog2 y"
proof -
  have "2 powi (ilog2 x) \<le> x" using assms ilog2_bounds(1) by simp
  also have "x \<le> y" by fact
  also have "y < 2 powi (ilog2 y + 1)" using assms ilog2_bounds(2) [of y] by simp
  finally show ?thesis using powi_less_imp_less by fastforce
qed

lemma round_double_alt:
  "x \<noteq> 0 \<Longrightarrow> round_double x = of_int (round_half_even (x / 2 powi (ulp_exp x))) * 2 powi (ulp_exp x)"
  by (simp add: round_double_def Let_def)

lemma round_double_upper:
  assumes "0 < x"
  shows "round_double x \<le> 2 powi (ulp_exp x + 53)"
proof -
  let ?u = "(2::rat) powi (ulp_exp x)"
  have "x < 2 powi (ilog2 x + 1)" using assms ilog2_bounds(2) by simp
  also have "\<dots> \<le> 2 powi (ulp_exp x + 53)"
    using assms by (intro powi_mono) (simp add: ulp_exp_def)
  finally have "x < 2 powi (ulp_exp x + 53)" .
  then have "x / ?u \<le> 2 powi (ulp_exp x + 53) / ?u"
    by (intro div_right_mono_pos) simp_all
  also have "\<dots> = of_int (2 ^ 53)"
    by (simp only: powi_add powi_53) simp
  finally have "round_half_even (x / ?u) \<le> 2 ^ 53"
    using round_half_even_mono round_half_even_of_int by metis
  then have "(of_int (round_half_even (x / ?u)) :: rat) \<le> of_int (2 ^ 53)"
    by (simp only: of_int_le_iff)
  then have "of_int (round_half_even (x / ?u)) * ?u \<le> of_int (2 ^ 53) * ?u"
    by (intro mult_right_mono_pos) simp_all
  also have "\<dots> = 2 powi (ulp_exp x + 53)"
    by (simp only: powi_add powi_53) simp
  finally show ?thesis using assms by (simp add: round_double_alt)
qed

lemma round_double_lower:
  assumes "0 < x" "- 1022 \<le> ilog2 x"
  shows "2 powi (ilog2 x) \<le> round_double x"
proof -
  let ?u = "(2::rat) powi (ulp_exp x)"
  have ue: "ulp_exp x = ilog2 x - 52" using assms by (simp add: ulp_exp_def)
  have split: "2 powi (ilog2 x) = ?u * 2 powi 52"
    using powi_add [of "ulp_exp x" 52] by (simp add: ue)
  have "of_int (2 ^ 52) = 2 powi (ilog2 x) / ?u"
    by (simp only: split powi_52) simp
  also have "\<dots> \<le> x / ?u"
    using assms ilog2_bounds(1) [of x] by (intro div_right_mono_pos) simp_all
  finally have "2 ^ 52 \<le> round_half_even (x / ?u)"
    using round_half_even_mono round_half_even_of_int by metis
  then have "(of_int (2 ^ 52) :: rat) \<le> of_int (round_half_even (x / ?u))"
    by (simp only: of_int_le_iff)
  then have "of_int (2 ^ 52) * ?u \<le> of_int (round_half_even (x / ?u)) * ?u"
    by (intro mult_right_mono_pos) simp_all
  moreover have "of_int (2 ^ 52) * ?u = 2 powi (ilog2 x)"
    by (simp only: split powi_52) simp
  moreover have "round_double x = of_int (round_half_even (x / ?u)) * ?u"
    using assms by (simp add: round_double_alt)
  ultimately show ?thesis by (simp only:)
qed

lemma round_double_nonneg: "0 \<le> x \<Longrightarrow> 0 \<le> round_double x"
  by (cases "x = 0") (simp_all add: round_double_def Let_def round_half_even_nonneg)

lemma round_double_mono:
  assumes "0 \<le> x" "x \<le> y"
  shows "round_double x \<le> round_double y"
proof (cases "x = 0")
  case True
  then show ?thesis using assms round_double_nonneg [of y] by (simp add: round_double_def)
next
  case False
  then have x: "0 < x" and y: "0 < y" using assms by auto
  have le: "ulp_exp x \<le> ulp_exp y"
    using ilog2_mono [OF x assms(2)] x y by (simp add: ulp_exp_def)
  show ?thesis
  proof (cases "ulp_exp x = ulp_exp y")
    case True
    have "x / 2 powi (ulp_exp y) \<le> y / 2 powi (ulp_exp y)"
      using assms(2) by (intro div_right_mono_pos) simp_all
    then have "round_half_even (x / 2 powi (ulp_exp y)) \<le> round_half_even (y / 2 powi (ulp_exp y))"
      by (rule round_half_even_mono)
    then have "(of_int (round_half_even (x / 2 powi (ulp_exp y))) :: rat)
                 \<le> of_int (round_half_even (y / 2 powi (ulp_exp y)))"
      by (simp only: of_int_le_iff)
    then have "of_int (round_half_even (x / 2 powi (ulp_exp y))) * 2 powi (ulp_exp y)
                 \<le> of_int (round_half_even (y / 2 powi (ulp_exp y))) * (2::rat) powi (ulp_exp y)"
      by (intro mult_right_mono_pos) simp_all
    then show ?thesis using x y True
      by (simp add: round_double_alt)
  next
    case False
    with le have lt: "ulp_exp x < ulp_exp y" by simp
    then have il: "- 1022 \<le> ilog2 y" and ue: "ulp_exp y = ilog2 y - 52"
      using y by (auto simp: ulp_exp_def)
    have "round_double x \<le> 2 powi (ulp_exp x + 53)" by (rule round_double_upper [OF x])
    also have "\<dots> \<le> 2 powi (ilog2 y)" using lt ue by (intro powi_mono) simp
    also have "\<dots> \<le> round_double y" by (rule round_double_lower [OF y il])
    finally show ?thesis .
  qed
qed

lemma round_double_of_int:
  assumes "0 \<le> n" "n < 2 ^ 53"
  shows "round_double (of_int n) = of_int n"
proof (cases "n = 0")
  case True
  then show ?thesis by (simp add: round_double_def)
next
  case False
  let ?x = "of_int n :: rat"
  from False assms have x1: "1 \<le> ?x" by simp
  then have x0: "0 < ?x" by linarith
  have "(2::rat) powi 0 \<le> ?x" using x1 by simp
  also have "?x < 2 powi (ilog2 ?x + 1)" by (rule ilog2_bounds(2) [OF x0])
  finally have lo: "0 \<le> ilog2 ?x" using powi_less_imp_less by fastforce
  have "2 powi (ilog2 ?x) \<le> ?x" by (rule ilog2_bounds(1) [OF x0])
  also have "?x < of_int (2 ^ 53)" using assms(2) by (simp only: of_int_less_iff)
  also have "\<dots> = 2 powi 53" by (simp only: powi_53)
  finally have hi: "ilog2 ?x \<le> 52" using powi_less_imp_less by fastforce
  define k where "k = nat (52 - ilog2 ?x)"
  have ue: "ulp_exp ?x = - int k" using lo hi x0 by (simp add: ulp_exp_def k_def)
  have u: "(2::rat) powi (ulp_exp ?x) = 1 / 2 ^ k"
    using powi_neg [of "int k"] by (simp add: ue)
  have "?x / 2 powi (ulp_exp ?x) = of_int (n * 2 ^ k)" by (simp add: u)
  then have "round_half_even (?x / 2 powi (ulp_exp ?x)) = n * 2 ^ k"
    by (simp only: round_half_even_of_int)
  then have "round_double ?x = of_int (n * 2 ^ k) * (1 / 2 ^ k)"
    using x0 by (simp only: round_double_alt [of ?x] u)
  then show ?thesis by simp
qed

lemma rd_100: "round_double 100 = 100"
  using round_double_of_int [of 100] by simp

lemma rd_1: "round_double 1 = 1"
  using round_double_of_int [of 1] by simp

lemma round_double_pow2:
  assumes "- 1022 \<le> e"
  shows "round_double (2 powi e) = 2 powi e"
proof -
  let ?x = "(2::rat) powi e"
  have x0: "0 < ?x" by simp
  have "?x < 2 powi (e + 1)" by (simp add: powi_add)
  with ilog2_bounds(1) [OF x0] have "2 powi (ilog2 ?x) < (2::rat) powi (e + 1)"
    by (rule le_less_trans)
  then have "ilog2 ?x < e + 1" by (rule powi_less_imp_less)
  moreover have "e < ilog2 ?x + 1"
    using ilog2_bounds(2) [OF x0] by (rule powi_less_imp_less)
  ultimately have il: "ilog2 ?x = e" by simp
  have ue: "ulp_exp ?x = e - 52" using assms by (simp add: ulp_exp_def il)
  have "?x = 2 powi (e - 52) * 2 powi 52"
    using powi_add [of "e - 52" 52] by simp
  then have "?x / 2 powi (e - 52) = of_int (2 ^ 52)"
    by (simp add: powi_52)
  then have "round_half_even (?x / 2 powi (ulp_exp ?x)) = 2 ^ 52"
    by (simp only: ue round_half_even_of_int)
  then have "round_double ?x = of_int (2 ^ 52) * 2 powi (e - 52)"
    using x0 by (simp only: round_double_alt [of ?x] ue)
  also have "\<dots> = 2 powi (e - 52) * 2 powi 52" by (simp add: powi_52)
  also have "\<dots> = ?x" using powi_add [of "e - 52" 52] by simp
  finally show ?thesis .
qed

text \<open>Evaluating the rounding of a number below \<open>2 ^ 53\<close> from its scaled significand.\<close>

lemma round_double_scaled:
  assumes "2 ^ 52 \<le> x * 2 ^ k" "x * 2 ^ k < 2 ^ 53" "k \<le> 1074"
  shows "round_double x = of_int (round_half_even (x * 2 ^ k)) / 2 ^ k"
proof -
  have "(0::rat) < 2 ^ 52" by simp
  then have "0 < x * 2 ^ k" using assms(1) by (rule less_le_trans)
  then have x0: "0 < x" by (simp add: zero_less_mult_iff)
  have pk: "(2::rat) powi (52 - int k) * 2 ^ k = 2 ^ 52"
    using powi_add [of "52 - int k" "int k"] by (simp add: power_int_def)
  have pk1: "(2::rat) powi (52 - int k + 1) * 2 ^ k = 2 ^ 53"
    using powi_add [of "53 - int k" "int k"] by (simp add: power_int_def add.commute)
  have "2 powi (52 - int k) * 2 ^ k \<le> x * 2 ^ k" using assms(1) pk by simp
  then have lo: "2 powi (52 - int k) \<le> x" by simp
  have "x * 2 ^ k < 2 powi (52 - int k + 1) * 2 ^ k" using assms(2) pk1 by simp
  then have hi: "x < 2 powi (52 - int k + 1)" by simp
  have "ilog2 x < 52 - int k + 1"
    using ilog2_bounds(1) [OF x0] hi powi_less_imp_less [of "ilog2 x" "52 - int k + 1"] by linarith
  moreover have "52 - int k < ilog2 x + 1"
    using ilog2_bounds(2) [OF x0] lo powi_less_imp_less [of "52 - int k" "ilog2 x + 1"] by linarith
  ultimately have il: "ilog2 x = 52 - int k" by simp
  have ue: "ulp_exp x = - int k" using assms(3) x0 by (simp add: ulp_exp_def il)
  have u: "(2::rat) powi (ulp_exp x) = 1 / 2 ^ k"
    using powi_neg [of "int k"] by (simp add: ue)
  show ?thesis using x0 by (simp add: round_double_alt u)
qed

lemma round_half_even_near:
  assumes "of_int n - 1 / 2 < q" "q < of_int n + 1 / 2"
  shows "round_half_even q = n"
proof -
  have "\<lfloor>q\<rfloor> = n \<or> \<lfloor>q\<rfloor> = n - 1" using assms by linarith
  then show ?thesis
  proof
    assume f: "\<lfloor>q\<rfloor> = n"
    then have "q - of_int n < 1 / 2" using assms by linarith
    with f show ?thesis by (simp add: round_half_even_def)
  next
    assume f: "\<lfloor>q\<rfloor> = n - 1"
    then have "1 / 2 < q - of_int (n - 1)" using assms by simp
    with f show ?thesis by (simp add: round_half_even_def)
  qed
qed

lemma round_double_near:
  assumes "2 ^ 52 \<le> x * 2 ^ k" "x * 2 ^ k < 2 ^ 53" "k \<le> 1074"
    and "of_int n - 1 / 2 < x * 2 ^ k" "x * 2 ^ k < of_int n + 1 / 2"
    and "r = of_int n / 2 ^ k"
  shows "round_double x = r"
  using round_double_scaled [OF assms(1-3)] round_half_even_near [OF assms(4,5)] assms(6)
  by simp

lemma round_half_even_tie:
  assumes "q = of_int n + 1 / 2"
  shows "round_half_even q = (if even n then n else n + 1)"
proof -
  have "\<lfloor>q\<rfloor> = n" using assms by (simp add: floor_eq_iff)
  then show ?thesis using assms by (simp add: round_half_even_def)
qed

lemma round_double_tie:
  assumes "2 ^ 52 \<le> x * 2 ^ k" "x * 2 ^ k < 2 ^ 53" "k \<le> 1074"
    and "x * 2 ^ k = of_int n + 1 / 2"
    and "r = of_int (if even n then n else n + 1) / 2 ^ k"
  shows "round_double x = r"
  using round_double_scaled [OF assms(1-3)] round_half_even_tie [OF assms(4)] assms(5)
  by simp

subsection \<open>Values of the rounding\<close>

lemma rd_lit_4: "round_double (4 / 10) = 3602879701896397 / 2 ^ 53"
  by (rule round_double_near [where k = 54 and n = 7205759403792794]) simp_all

lemma rd_lit_3: "round_double (3 / 10) = 5404319552844595 / 2 ^ 54"
  by (rule round_double_near [where k = 54 and n = 5404319552844595]) simp_all

lemma rd_lit_2: "round_double (2 / 10) = 3602879701896397 / 2 ^ 54"
  by (rule round_double_near [where k = 55 and n = 7205759403792794]) simp_all

lemma rd_lit_1: "round_double (1 / 10) = 3602879701896397 / 2 ^ 55"
  by (rule round_double_near [where k = 56 and n = 7205759403792794]) simp_all

lemma rd_100_lit_4: "round_double (100 * (3602879701896397 / 2 ^ 53)) = 40"
  by (rule round_double_near [where k = 47 and n = 5629499534213120]) simp_all

lemma rd_100_lit_3: "round_double (100 * (5404319552844595 / 2 ^ 54)) = 30"
  by (rule round_double_near [where k = 48 and n = 8444249301319680]) simp_all

lemma rd_100_lit_2: "round_double (100 * (3602879701896397 / 2 ^ 54)) = 20"
  by (rule round_double_near [where k = 48 and n = 5629499534213120]) simp_all

lemma rd_100_lit_1: "round_double (100 * (3602879701896397 / 2 ^ 55)) = 10"
  by (rule round_double_near [where k = 49 and n = 5629499534213120]) simp_all


lemma rd_50_lit_3: "round_double (50 * (5404319552844595 / 2 ^ 54)) = 15"
  by (rule round_double_near [where k = 49 and n = 8444249301319680]) simp_all



lemma rd_1_tenths: "round_double (1 / 10) = 3602879701896397 / 2 ^ 55"
  by (rule round_double_near [where k = 56 and n = 7205759403792794]) simp_all

lemma rd_1_tenths_100: "round_double ((3602879701896397 / 2 ^ 55) * 100) = 10"
  by (rule round_double_near [where k = 49 and n = 5629499534213120]) simp_all

lemma rd_2_tenths: "round_double (2 / 10) = 3602879701896397 / 2 ^ 54"
  by (rule round_double_near [where k = 55 and n = 7205759403792794]) simp_all

lemma rd_2_tenths_100: "round_double ((3602879701896397 / 2 ^ 54) * 100) = 20"
  by (rule round_double_near [where k = 48 and n = 5629499534213120]) simp_all

lemma rd_3_tenths: "round_double (3 / 10) = 5404319552844595 / 2 ^ 54"
  by (rule round_double_near [where k = 54 and n = 5404319552844595]) simp_all

lemma rd_3_tenths_100: "round_double ((5404319552844595 / 2 ^ 54) * 100) = 30"
  by (rule round_double_near [where k = 48 and n = 8444249301319680]) simp_all

lemma rd_4_tenths: "round_double (4 / 10) = 3602879701896397 / 2 ^ 53"
  by (rule round_double_near [where k = 54 and n = 7205759403792794]) simp_all

lemma rd_4_tenths_100: "round_double ((3602879701896397 / 2 ^ 53) * 100) = 40"
  by (rule round_double_near [where k = 47 and n = 5629499534213120]) simp_all

lemma rd_5_tenths: "round_double (5 / 10) = 1 / 2 ^ 1"
  by (rule round_double_near [where k = 53 and n = 4503599627370496]) simp_all

lemma rd_5_tenths_100: "round_double ((1 / 2 ^ 1) * 100) = 50"
  by (rule round_double_near [where k = 47 and n = 7036874417766400]) simp_all

lemma rd_6_tenths: "round_double (6 / 10) = 5404319552844595 / 2 ^ 53"
  by (rule round_double_near [where k = 53 and n = 5404319552844595]) simp_all

lemma rd_6_tenths_100: "round_double ((5404319552844595 / 2 ^ 53) * 100) = 60"
  by (rule round_double_near [where k = 47 and n = 8444249301319680]) simp_all

lemma rd_7_tenths: "round_double (7 / 10) = 3152519739159347 / 2 ^ 52"
  by (rule round_double_near [where k = 53 and n = 6305039478318694]) simp_all

lemma rd_7_tenths_100: "round_double ((3152519739159347 / 2 ^ 52) * 100) = 70"
  by (rule round_double_near [where k = 46 and n = 4925812092436480]) simp_all

lemma rd_8_tenths: "round_double (8 / 10) = 3602879701896397 / 2 ^ 52"
  by (rule round_double_near [where k = 53 and n = 7205759403792794]) simp_all

lemma rd_8_tenths_100: "round_double ((3602879701896397 / 2 ^ 52) * 100) = 80"
  by (rule round_double_near [where k = 46 and n = 5629499534213120]) simp_all

lemma rd_9_tenths: "round_double (9 / 10) = 8106479329266893 / 2 ^ 53"
  by (rule round_double_near [where k = 53 and n = 8106479329266893]) simp_all

lemma rd_9_tenths_100: "round_double ((8106479329266893 / 2 ^ 53) * 100) = 90"
  by (rule round_double_near [where k = 46 and n = 6333186975989760]) simp_all

lemma rd_29_50: "round_double (29 / 50) = 5224175567749775 / 2 ^ 53"
  by (rule round_double_near [where k = 53 and n = 5224175567749775]) simp_all

lemma rd_29_50_100: "round_double ((5224175567749775 / 2 ^ 53) * 100) = 8162774324609023 / 2 ^ 47"
  by (rule round_double_near [where k = 47 and n = 8162774324609023]) simp_all

lemma rd_1_6: "round_double (1 / 6) = 6004799503160661 / 2 ^ 55"
  by (rule round_double_near [where k = 55 and n = 6004799503160661]) simp_all

lemma rd_1_6_100: "round_double ((6004799503160661 / 2 ^ 55) * 100) = 2345624805922133 / 2 ^ 47"
  by (rule round_double_near [where k = 48 and n = 4691249611844266]) simp_all

lemma rd_2_14: "round_double (2 / 14) = 2573485501354569 / 2 ^ 54"
  by (rule round_double_near [where k = 55 and n = 5146971002709138]) simp_all

lemma rd_2_14_100: "round_double ((2573485501354569 / 2 ^ 54) * 100) = 2010535547933257 / 2 ^ 47"
  by (rule round_double_near [where k = 49 and n = 8042142191733028]) simp_all

lemma rd_16_lit_4: "round_double (16 * (3602879701896397 / 2 ^ 53)) = 3602879701896397 / 2 ^ 49"
  by (rule round_double_near [where k = 50 and n = 7205759403792794]) simp_all

lemma rd_16_lit_2: "round_double (16 * (3602879701896397 / 2 ^ 54)) = 3602879701896397 / 2 ^ 50"
  by (rule round_double_near [where k = 51 and n = 7205759403792794]) simp_all

lemma rd_14_lit_1: "round_double (14 * (3602879701896397 / 2 ^ 55)) = 6305039478318695 / 2 ^ 52"
  by (rule round_double_near [where k = 52 and n = 6305039478318695]) simp_all

lemma rd_sum_16_50: "round_double (3602879701896397 / 2 ^ 49 + 15) = 3011782250804019 / 2 ^ 47"
  by (rule round_double_tie [where k = 48 and n = 6023564501608038]) simp_all

lemma rd_sum_16_50_16: "round_double (3011782250804019 / 2 ^ 47 + 3602879701896397 / 2 ^ 50) = 6924284427082137 / 2 ^ 48"
  by (rule round_double_near [where k = 48 and n = 6924284427082137]) simp_all

lemma rd_sum_16_50_16_14: "round_double (6924284427082137 / 2 ^ 48 + 6305039478318695 / 2 ^ 52) = 7318349394477055 / 2 ^ 48"
  by (rule round_double_near [where k = 48 and n = 7318349394477055]) simp_all

lemma rd_57_lit_2: "round_double (57 * (3602879701896397 / 2 ^ 54)) = 6417629469002957 / 2 ^ 49"
  by (rule round_double_near [where k = 49 and n = 6417629469002957]) simp_all

lemma rd_sum_57: "round_double (6417629469002957 / 2 ^ 49) = 6417629469002957 / 2 ^ 49"
  by (rule round_double_near [where k = 49 and n = 6417629469002957]) simp_all

lemma not_overflows: "0 \<le> r \<Longrightarrow> r < 2 ^ 1024 \<Longrightarrow> \<not> overflows r"
  by (simp add: overflows_def)

lemma to_float_Fin:
  assumes "0 \<le> x" "x \<le> y" "round_double y < 2 ^ 1024"
  shows "to_float x = Fin (round_double x)"
proof -
  have "0 \<le> round_double x" using assms(1) by (rule round_double_nonneg)
  moreover have "round_double x \<le> round_double y" using assms(1,2) by (rule round_double_mono)
  ultimately have "\<not> overflows (round_double x)"
    using assms(3) by (intro not_overflows) auto
  then show ?thesis by (simp add: to_float_def Let_def)
qed

lemma float_of_int_small:
  assumes "0 \<le> n" "n < 2 ^ 53"
  shows "float_of_int n = Inr (Fin (of_int n))"
proof -
  have "(of_int n :: rat) < of_int (2 ^ 53)" using assms(2) by (simp only: of_int_less_iff)
  then have "(of_int n :: rat) < 2 ^ 1024" by simp
  then have "\<not> overflows (of_int n)" using assms(1) by (intro not_overflows) auto
  then show ?thesis using assms by (simp add: float_of_int_def round_double_of_int Let_def)
qed

lemma trunc_range: "0 \<le> r \<Longrightarrow> r \<le> 100 \<Longrightarrow> 0 \<le> trunc r \<and> trunc r \<le> 100"
  by (simp add: trunc_def floor_le_iff)

lemma percent_value:
  assumes "a \<le> b" "0 < b"
  shows "percent a b = Inr (double_percentage a b)"
    and "0 \<le> double_percentage a b" and "double_percentage a b \<le> 100"
proof -
  let ?x = "of_nat a / of_nat b :: rat"
  let ?q = "round_double ?x"
  have x: "0 \<le> ?x" "?x \<le> 1" using assms by simp_all
  have q0: "0 \<le> ?q" using x(1) by (rule round_double_nonneg)
  have q1: "?q \<le> 1" using round_double_mono [OF x] by (simp add: rd_1)
  have "\<not> overflows ?q" using q0 q1 by (intro not_overflows) auto
  then have div: "true_div (int a) (int b) = Inr (Fin ?q)"
    using assms(2) by (simp add: true_div_def Let_def)
  have h: "float_of_int 100 = Inr (Fin 100)"
    using float_of_int_small [of 100] by simp
  have p: "0 \<le> ?q * 100" "?q * 100 \<le> 100" using q0 q1 by simp_all
  have "to_float (?q * 100) = Fin (round_double (?q * 100))"
    using p by (rule to_float_Fin) (simp add: rd_100)
  then show "percent a b = Inr (double_percentage a b)"
    by (simp add: percent_def div float_times_int_def h bindE_def int_of_float_def double_percentage_def)
  have "0 \<le> round_double (?q * 100)" using p(1) by (rule round_double_nonneg)
  moreover have "round_double (?q * 100) \<le> 100"
    using round_double_mono [OF p] by (simp add: rd_100)
  ultimately show "0 \<le> double_percentage a b" and "double_percentage a b \<le> 100"
    using trunc_range by (simp_all add: double_percentage_def)
qed


lemma weighted_term:
  assumes "0 \<le> n" "n \<le> 100" "0 \<le> w" "round_double (100 * w) = m" "m < 2 ^ 1024"
  shows "int_times_float n (Fin w) = Inr (Fin (round_double (of_int n * w)))"
    and "0 \<le> round_double (of_int n * w)" and "round_double (of_int n * w) \<le> m"
proof -
  have n: "float_of_int n = Inr (Fin (of_int n))"
    using assms(1,2) by (intro float_of_int_small) auto
  have x: "0 \<le> of_int n * w" "of_int n * w \<le> 100 * w"
    using assms(1,2,3) by (simp_all add: mult_right_mono)
  have "to_float (of_int n * w) = Fin (round_double (of_int n * w))"
    using x by (rule to_float_Fin) (simp only: assms(4) assms(5))
  then show "int_times_float n (Fin w) = Inr (Fin (round_double (of_int n * w)))"
    by (simp add: int_times_float_def n bindE_def)
  show "0 \<le> round_double (of_int n * w)" using x(1) by (rule round_double_nonneg)
  show "round_double (of_int n * w) \<le> m" using round_double_mono [OF x] assms(4) by simp
qed

lemma fadd_Fin:
  assumes "0 \<le> a" "0 \<le> b" "a + b \<le> of_int N" "N < 2 ^ 53"
  shows "fadd (Fin a) (Fin b) = Fin (round_double (a + b))"
    and "0 \<le> round_double (a + b)" and "round_double (a + b) \<le> of_int N"
proof -
  have "(0::rat) \<le> of_int N" using assms(1,2,3) by linarith
  then have N0: "0 \<le> N" by simp
  have rN: "round_double (of_int N) = of_int N" using N0 assms(4) by (rule round_double_of_int)
  have "(of_int N :: rat) < of_int (2 ^ 53)" using assms(4) by (simp only: of_int_less_iff)
  also have "(of_int (2 ^ 53) :: rat) < 2 ^ 1024" by simp
  finally have lt: "(of_int N :: rat) < 2 ^ 1024" .
  have x: "0 \<le> a + b" using assms(1,2) by simp
  have "to_float (a + b) = Fin (round_double (a + b))"
    using x assms(3) by (rule to_float_Fin) (simp only: rN lt)
  then show "fadd (Fin a) (Fin b) = Fin (round_double (a + b))" by simp
  show "0 \<le> round_double (a + b)" using x by (rule round_double_nonneg)
  show "round_double (a + b) \<le> of_int N" using round_double_mono [OF x assms(3)] rN by simp
qed

lemma overall_value:
  assumes "0 \<le> s" "s \<le> 100" "0 \<le> e" "e \<le> 100" "0 \<le> k" "k \<le> 100" "0 \<le> t" "t \<le> 100"
  shows "overall_score s e k t = Inr (double_weighted_score s e k t)"
    and "0 \<le> double_weighted_score s e k t" and "double_weighted_score s e k t \<le> 100"
proof -
  let ?w4 = "round_double (4 / 10)" and ?w3 = "round_double (3 / 10)"
  let ?w2 = "round_double (2 / 10)" and ?w1 = "round_double (1 / 10)"
  let ?a = "round_double (of_int s * ?w4)" and ?b = "round_double (of_int e * ?w3)"
  let ?c = "round_double (of_int k * ?w2)" and ?d = "round_double (of_int t * ?w1)"
  have w: "0 \<le> ?w4" "0 \<le> ?w3" "0 \<le> ?w2" "0 \<le> ?w1"
    by (rule round_double_nonneg, simp)+
  have m4: "round_double (100 * ?w4) = 40" by (simp only: rd_lit_4 rd_100_lit_4)
  have m3: "round_double (100 * ?w3) = 30" by (simp only: rd_lit_3 rd_100_lit_3)
  have m2: "round_double (100 * ?w2) = 20" by (simp only: rd_lit_2 rd_100_lit_2)
  have m1: "round_double (100 * ?w1) = 10" by (simp only: rd_lit_1 rd_100_lit_1)
  have lt: "(40::rat) < 2 ^ 1024" "(30::rat) < 2 ^ 1024" "(20::rat) < 2 ^ 1024" "(10::rat) < 2 ^ 1024"
    by simp_all
  note a = weighted_term [OF assms(1,2) w(1) m4 lt(1)]
  note b = weighted_term [OF assms(3,4) w(2) m3 lt(2)]
  note c = weighted_term [OF assms(5,6) w(3) m2 lt(3)]
  note d = weighted_term [OF assms(7,8) w(4) m1 lt(4)]
  let ?ab = "round_double (?a + ?b)"
  have ab: "fadd (Fin ?a) (Fin ?b) = Fin ?ab" "0 \<le> ?ab" "?ab \<le> 70"
    using fadd_Fin [OF a(2) b(2), of 70] a(3) b(3) by simp_all
  let ?abc = "round_double (?ab + ?c)"
  have abc: "fadd (Fin ?ab) (Fin ?c) = Fin ?abc" "0 \<le> ?abc" "?abc \<le> 90"
    using fadd_Fin [OF ab(2) c(2), of 90] ab(3) c(3) by simp_all
  let ?abcd = "round_double (?abc + ?d)"
  have abcd: "fadd (Fin ?abc) (Fin ?d) = Fin ?abcd" "0 \<le> ?abcd" "?abcd \<le> 100"
    using fadd_Fin [OF abc(2) d(2), of 100] abc(3) d(3) by simp_all
  show "overall_score s e k t = Inr (double_weighted_score s e k t)"
    by (simp only: overall_score_def literal_def a(1) b(1) c(1) d(1) bindE_def sum.case
                   ab(1) abc(1) abcd(1) int_of_float_def pyfloat.case double_weighted_score_def)
  show "0 \<le> double_weighted_score s e k t" and "double_weighted_score s e k t \<le> 100"
    using trunc_range [OF abcd(2,3)] by (simp_all add: double_weighted_score_def)
qed



subsection \<open>The error of the rounding\<close>

text \<open>
  Below 128 a rounding moves a value by at most \<open>2 ^ - 47\<close>, so the sum of the scorer
  stays within \<open>2 ^ - 38\<close> of the exact weighted sum. A value that close to a multiple \<open>X\<close> of
  \<open>1 / d\<close> truncates to the same integer as \<open>X\<close> or to the one below.
\<close>

lemma round_half_even_error: "\<bar>of_int (round_half_even q) - q\<bar> \<le> 1 / 2"
proof -
  have "of_int \<lfloor>q\<rfloor> \<le> q" "q < of_int \<lfloor>q\<rfloor> + 1" by linarith+
  then show ?thesis
    by (auto simp: round_half_even_def Let_def abs_le_iff)
qed

lemma round_double_error:
  assumes "\<bar>x\<bar> < 128"
  shows "\<bar>round_double x - x\<bar> \<le> 1 / 2 ^ 47"
proof (cases "x = 0")
  case True
  then show ?thesis by (simp add: round_double_def)
next
  case False
  then have pos: "0 < \<bar>x\<bar>" by simp
  let ?u = "(2::rat) powi (ulp_exp x)"
  have "2 powi (ilog2 \<bar>x\<bar>) \<le> \<bar>x\<bar>" using ilog2_bounds(1) [OF pos] .
  also have "\<bar>x\<bar> < 2 powi 7" using assms powi_nonneg [of 7] by simp
  finally have "ilog2 \<bar>x\<bar> < 7" by (rule powi_less_imp_less)
  then have "ulp_exp x \<le> - 46" by (simp add: ulp_exp_def)
  then have "?u \<le> 2 powi (- 46)" by (rule powi_mono)
  then have u: "?u \<le> 1 / 2 ^ 46" using powi_neg [of 46] by simp
  have upos: "0 < ?u" by simp
  have "round_double x - x = (of_int (round_half_even (x / ?u)) - x / ?u) * ?u"
    using round_double_alt [OF False] upos by (simp add: field_simps)
  then have "\<bar>round_double x - x\<bar> = \<bar>of_int (round_half_even (x / ?u)) - x / ?u\<bar> * ?u"
    using upos by (simp add: abs_mult)
  also have "\<dots> \<le> 1 / 2 * ?u"
    by (intro mult_right_mono round_half_even_error) simp
  also have "\<dots> \<le> 1 / 2 * (1 / 2 ^ 46)" using u by simp
  finally show ?thesis by simp
qed

lemma floor_near_grid:
  fixes F X :: rat and m d :: int
  assumes "0 < d" "of_int d * X = of_int m" "\<bar>F - X\<bar> < 1 / of_int d"
  shows "\<lfloor>X\<rfloor> - 1 \<le> \<lfloor>F\<rfloor>" and "\<lfloor>F\<rfloor> \<le> \<lfloor>X\<rfloor>"
proof -
  have dpos: "(0::rat) < of_int d" using assms(1) by simp
  have d1: "1 / (of_int d :: rat) \<le> 1" using assms(1) by simp
  have "of_int \<lfloor>X\<rfloor> \<le> X" by simp
  then have "of_int (\<lfloor>X\<rfloor> - 1) \<le> F" using assms(3) d1 by (simp add: abs_less_iff) linarith
  then show "\<lfloor>X\<rfloor> - 1 \<le> \<lfloor>F\<rfloor>" by (simp only: le_floor_iff)
  have "X < of_int \<lfloor>X\<rfloor> + 1" by linarith
  then have "of_int d * X < of_int d * (of_int \<lfloor>X\<rfloor> + 1)"
    using dpos by (simp only: mult_less_cancel_left_pos)
  then have "(of_int m :: rat) < of_int (d * (\<lfloor>X\<rfloor> + 1))" using assms(2) by simp
  then have "m < d * (\<lfloor>X\<rfloor> + 1)" by (simp only: of_int_less_iff)
  then have "m \<le> d * (\<lfloor>X\<rfloor> + 1) - 1" by simp
  then have "(of_int m :: rat) \<le> of_int (d * (\<lfloor>X\<rfloor> + 1) - 1)" by (simp only: of_int_le_iff)
  moreover have "of_int d * (of_int \<lfloor>X\<rfloor> + 1 - 1 / of_int d) = (of_int (d * (\<lfloor>X\<rfloor> + 1) - 1) :: rat)"
    using dpos by (simp add: field_simps)
  ultimately have "of_int d * X \<le> of_int d * (of_int \<lfloor>X\<rfloor> + 1 - 1 / of_int d)"
    using assms(2) by (simp only:)
  then have "X \<le> of_int \<lfloor>X\<rfloor> + 1 - 1 / of_int d"
    using dpos by (simp only: mult_le_cancel_left_pos)
  then have "F < of_int (\<lfloor>X\<rfloor> + 1)" using assms(3) by (simp add: abs_less_iff)
  then have "\<lfloor>F\<rfloor> < \<lfloor>X\<rfloor> + 1" by (simp only: floor_less_iff)
  then show "\<lfloor>F\<rfloor> \<le> \<lfloor>X\<rfloor>" by simp
qed

lemma double_weighted_error:
  fixes s e k t :: int
  assumes "0 \<le> s" "s \<le> 100" "0 \<le> e" "e \<le> 100" "0 \<le> k" "k \<le> 100" "0 \<le> t" "t \<le> 100"
  shows "\<bar>round_double (round_double (round_double
           (round_double (of_int s * round_double (4 / 10))
            + round_double (of_int e * round_double (3 / 10)))
            + round_double (of_int k * round_double (2 / 10)))
            + round_double (of_int t * round_double (1 / 10)))
          - (of_int s * (4 / 10) + of_int e * (3 / 10) + of_int k * (2 / 10) + of_int t * (1 / 10))\<bar>
         \<le> 1 / 2 ^ 38"
proof -
  define S E K T where "S = (of_int s :: rat)" and "E = (of_int e :: rat)"
    and "K = (of_int k :: rat)" and "T = (of_int t :: rat)"
  have r: "0 \<le> S" "S \<le> 100" "0 \<le> E" "E \<le> 100" "0 \<le> K" "K \<le> 100" "0 \<le> T" "T \<le> 100"
    using assms by (simp_all add: S_def E_def K_def T_def)
  define a where "a = round_double (S * (3602879701896397 / 2 ^ 53))"
  define b where "b = round_double (E * (5404319552844595 / 2 ^ 54))"
  define c where "c = round_double (K * (3602879701896397 / 2 ^ 54))"
  define d where "d = round_double (T * (3602879701896397 / 2 ^ 55))"
  have a: "\<bar>a - S * (3602879701896397 / 2 ^ 53)\<bar> \<le> 1 / 2 ^ 47"
    unfolding a_def using r by (intro round_double_error) (simp add: abs_less_iff)
  have b: "\<bar>b - E * (5404319552844595 / 2 ^ 54)\<bar> \<le> 1 / 2 ^ 47"
    unfolding b_def using r by (intro round_double_error) (simp add: abs_less_iff)
  have c: "\<bar>c - K * (3602879701896397 / 2 ^ 54)\<bar> \<le> 1 / 2 ^ 47"
    unfolding c_def using r by (intro round_double_error) (simp add: abs_less_iff)
  have d: "\<bar>d - T * (3602879701896397 / 2 ^ 55)\<bar> \<le> 1 / 2 ^ 47"
    unfolding d_def using r by (intro round_double_error) (simp add: abs_less_iff)
  have a': "\<bar>a - S * (4 / 10)\<bar> \<le> 101 / 2 ^ 47" using a r(1,2) unfolding abs_le_iff by (simp; linarith)
  have b': "\<bar>b - E * (3 / 10)\<bar> \<le> 101 / 2 ^ 47" using b r(3,4) unfolding abs_le_iff by (simp; linarith)
  have c': "\<bar>c - K * (2 / 10)\<bar> \<le> 101 / 2 ^ 47" using c r(5,6) unfolding abs_le_iff by (simp; linarith)
  have d': "\<bar>d - T * (1 / 10)\<bar> \<le> 101 / 2 ^ 47" using d r(7,8) unfolding abs_le_iff by (simp; linarith)
  have ab_range: "\<bar>a + b\<bar> < 128"
    using a' b' r unfolding abs_le_iff abs_less_iff by (simp; linarith)
  then have ab: "\<bar>round_double (a + b) - (a + b)\<bar> \<le> 1 / 2 ^ 47"
    by (rule round_double_error)
  have abc_range: "\<bar>round_double (a + b) + c\<bar> < 128"
    using a' b' c' ab r unfolding abs_le_iff abs_less_iff by (simp; linarith)
  then have abc: "\<bar>round_double (round_double (a + b) + c) - (round_double (a + b) + c)\<bar>
                    \<le> 1 / 2 ^ 47"
    by (rule round_double_error)
  have abcd_range: "\<bar>round_double (round_double (a + b) + c) + d\<bar> < 128"
    using a' b' c' d' ab abc r unfolding abs_le_iff abs_less_iff by (simp; linarith)
  then have abcd: "\<bar>round_double (round_double (round_double (a + b) + c) + d)
                 - (round_double (round_double (a + b) + c) + d)\<bar> \<le> 1 / 2 ^ 47"
    by (rule round_double_error)
  have "\<bar>round_double (round_double (round_double (a + b) + c) + d)
          - (S * (4 / 10) + E * (3 / 10) + K * (2 / 10) + T * (1 / 10))\<bar> \<le> 1 / 2 ^ 38"
    using a' b' c' d' ab abc abcd unfolding abs_le_iff by (simp; linarith)
  then show ?thesis
    by (simp only: a_def b_def c_def d_def S_def E_def K_def T_def rd_lit_4 rd_lit_3 rd_lit_2 rd_lit_1)
qed

lemma double_percentage_error:
  assumes "a \<le> b" "0 < b"
  shows "\<bar>round_double (round_double (of_nat a / of_nat b) * 100) - of_nat a / of_nat b * 100\<bar>
           \<le> 101 / 2 ^ 47"
proof -
  define q :: rat where "q = of_nat a / of_nat b"
  have q: "0 \<le> q" "q \<le> 1" using assms by (simp_all add: q_def)
  have e1: "\<bar>round_double q - q\<bar> \<le> 1 / 2 ^ 47"
    using q by (intro round_double_error) simp
  have "\<bar>round_double q * 100\<bar> < 128"
    using e1 q unfolding abs_le_iff abs_less_iff by (simp; linarith)
  then have e2: "\<bar>round_double (round_double q * 100) - round_double q * 100\<bar> \<le> 1 / 2 ^ 47"
    by (rule round_double_error)
  have "\<bar>round_double (round_double q * 100) - q * 100\<bar> \<le> 101 / 2 ^ 47"
    using e1 e2 unfolding abs_le_iff by (simp; linarith)
  then show ?thesis by (simp only: q_def)
qed

lemma trunc_nonneg: "0 \<le> r \<Longrightarrow> trunc r = \<lfloor>r\<rfloor>"
  by (simp add: trunc_def)

lemma double_weighted_near_exact:
  fixes s e k t :: int
  assumes "0 \<le> s" "s \<le> 100" "0 \<le> e" "e \<le> 100" "0 \<le> k" "k \<le> 100" "0 \<le> t" "t \<le> 100"
  shows "exact_weighted_score s e k t - 1 \<le> double_weighted_score s e k t"
    and "double_weighted_score s e k t \<le> exact_weighted_score s e k t"
proof -
  let ?X = "of_int s * (4 / 10) + of_int e * (3 / 10) + of_int k * (2 / 10) + of_int t * (1 / 10) :: rat"
  let ?F = "round_double (round_double (round_double
           (round_double (of_int s * round_double (4 / 10))
            + round_double (of_int e * round_double (3 / 10)))
            + round_double (of_int k * round_double (2 / 10)))
            + round_double (of_int t * round_double (1 / 10)))"
  have err: "\<bar>?F - ?X\<bar> \<le> 1 / 2 ^ 38" using assms by (rule double_weighted_error)
  then have near: "\<bar>?F - ?X\<bar> < 1 / of_int 10" by simp
  have grid: "of_int 10 * ?X = of_int (4 * s + 3 * e + 2 * k + t)" by simp
  have X0: "0 \<le> ?X" using assms by simp
  have F0: "0 \<le> ?F"
    using assms by (intro round_double_nonneg add_nonneg_nonneg mult_nonneg_nonneg) simp_all
  have d: "double_weighted_score s e k t = \<lfloor>?F\<rfloor>"
    using F0 by (simp only: double_weighted_score_def trunc_nonneg)
  have x: "exact_weighted_score s e k t = \<lfloor>?X\<rfloor>"
    using X0 by (simp only: exact_weighted_score_def trunc_nonneg)
  show "exact_weighted_score s e k t - 1 \<le> double_weighted_score s e k t"
    and "double_weighted_score s e k t \<le> exact_weighted_score s e k t"
    using floor_near_grid [OF _ grid near] by (simp_all only: d x)
qed

lemma double_percentage_near_exact:
  assumes "a \<le> b" "0 < b" "b \<le> 2 ^ 40"
  shows "exact_percentage a b - 1 \<le> double_percentage a b"
    and "double_percentage a b \<le> exact_percentage a b"
proof -
  let ?X = "of_nat a / of_nat b * 100 :: rat"
  let ?F = "round_double (round_double (of_nat a / of_nat b) * 100)"
  have err: "\<bar>?F - ?X\<bar> \<le> 101 / 2 ^ 47" using assms(1,2) by (rule double_percentage_error)
  have "(of_nat b :: rat) \<le> 2 ^ 40" using assms(3) by (metis of_nat_le_iff of_nat_numeral of_nat_power)
  then have "(101 :: rat) / 2 ^ 47 < 1 / of_nat b"
    using assms(2) by (simp add: field_simps)
  with err have near: "\<bar>?F - ?X\<bar> < 1 / of_int (int b)" by simp
  have grid: "of_int (int b) * ?X = of_int (100 * int a)" using assms(2) by simp
  have X0: "0 \<le> ?X" by simp
  have F0: "0 \<le> ?F"
    by (intro round_double_nonneg mult_nonneg_nonneg) simp_all
  have d: "double_percentage a b = \<lfloor>?F\<rfloor>"
    using F0 by (simp only: double_percentage_def trunc_nonneg)
  have x: "exact_percentage a b = \<lfloor>?X\<rfloor>"
    using X0 by (simp only: exact_percentage_def trunc_nonneg)
  have bpos: "0 < int b" using assms(2) by simp
  show "exact_percentage a b - 1 \<le> double_percentage a b"
    and "double_percentage a b \<le> exact_percentage a b"
    using floor_near_grid [OF bpos grid near] by (simp_all only: d x)
qed

subsection \<open>Shares with a small denominator\<close>

text \<open>
  A share \<open>a / b\<close> with \<open>b\<close> at most 33, the size of the skill catalog, is scored as in
  exact arithmetic. Where \<open>100 * a / b\<close> is not an integer it is at least \<open>1 / 33\<close> away
  from one, further than the rounding error; where it is an integer \<open>j\<close>, the share is
  \<open>j / 100\<close> with \<open>j\<close> a multiple of 4 or of 5, and the 41 such values are computed.
\<close>

lemma rd_share_4: "round_double (4 / 100) = 5764607523034235 / 2 ^ 57"
  by (rule round_double_near [where k = 57 and n = 5764607523034235]) simp_all

lemma rd_share_4_100: "round_double ((5764607523034235 / 2 ^ 57) * 100) = 4"
  by (rule round_double_near [where k = 50 and n = 4503599627370496]) simp_all

lemma rd_share_5: "round_double (5 / 100) = 3602879701896397 / 2 ^ 56"
  by (rule round_double_near [where k = 57 and n = 7205759403792794]) simp_all

lemma rd_share_5_100: "round_double ((3602879701896397 / 2 ^ 56) * 100) = 5"
  by (rule round_double_near [where k = 50 and n = 5629499534213120]) simp_all

lemma rd_share_8: "round_double (8 / 100) = 5764607523034235 / 2 ^ 56"
  by (rule round_double_near [where k = 56 and n = 5764607523034235]) simp_all

lemma rd_share_8_100: "round_double ((5764607523034235 / 2 ^ 56) * 100) = 8"
  by (rule round_double_near [where k = 49 and n = 4503599627370496]) simp_all

lemma rd_share_10: "round_double (10 / 100) = 3602879701896397 / 2 ^ 55"
  by (rule round_double_near [where k = 56 and n = 7205759403792794]) simp_all

lemma rd_share_10_100: "round_double ((3602879701896397 / 2 ^ 55) * 100) = 10"
  by (rule round_double_near [where k = 49 and n = 5629499534213120]) simp_all

lemma rd_share_12: "round_double (12 / 100) = 1080863910568919 / 2 ^ 53"
  by (rule round_double_near [where k = 56 and n = 8646911284551352]) simp_all

lemma rd_share_12_100: "round_double ((1080863910568919 / 2 ^ 53) * 100) = 12"
  by (rule round_double_near [where k = 49 and n = 6755399441055744]) simp_all

lemma rd_share_15: "round_double (15 / 100) = 5404319552844595 / 2 ^ 55"
  by (rule round_double_near [where k = 55 and n = 5404319552844595]) simp_all

lemma rd_share_15_100: "round_double ((5404319552844595 / 2 ^ 55) * 100) = 15"
  by (rule round_double_near [where k = 49 and n = 8444249301319680]) simp_all

lemma rd_share_16: "round_double (16 / 100) = 5764607523034235 / 2 ^ 55"
  by (rule round_double_near [where k = 55 and n = 5764607523034235]) simp_all

lemma rd_share_16_100: "round_double ((5764607523034235 / 2 ^ 55) * 100) = 16"
  by (rule round_double_near [where k = 48 and n = 4503599627370496]) simp_all

lemma rd_share_20: "round_double (20 / 100) = 3602879701896397 / 2 ^ 54"
  by (rule round_double_near [where k = 55 and n = 7205759403792794]) simp_all

lemma rd_share_20_100: "round_double ((3602879701896397 / 2 ^ 54) * 100) = 20"
  by (rule round_double_near [where k = 48 and n = 5629499534213120]) simp_all

lemma rd_share_24: "round_double (24 / 100) = 1080863910568919 / 2 ^ 52"
  by (rule round_double_near [where k = 55 and n = 8646911284551352]) simp_all

lemma rd_share_24_100: "round_double ((1080863910568919 / 2 ^ 52) * 100) = 24"
  by (rule round_double_near [where k = 48 and n = 6755399441055744]) simp_all

lemma rd_share_25: "round_double (25 / 100) = 1 / 2 ^ 2"
  by (rule round_double_near [where k = 54 and n = 4503599627370496]) simp_all

lemma rd_share_25_100: "round_double ((1 / 2 ^ 2) * 100) = 25"
  by (rule round_double_near [where k = 48 and n = 7036874417766400]) simp_all

lemma rd_share_28: "round_double (28 / 100) = 1261007895663739 / 2 ^ 52"
  by (rule round_double_near [where k = 54 and n = 5044031582654956]) simp_all

lemma rd_share_28_100: "round_double ((1261007895663739 / 2 ^ 52) * 100) = 7881299347898369 / 2 ^ 48"
  by (rule round_double_near [where k = 48 and n = 7881299347898369]) simp_all

lemma rd_share_30: "round_double (30 / 100) = 5404319552844595 / 2 ^ 54"
  by (rule round_double_near [where k = 54 and n = 5404319552844595]) simp_all

lemma rd_share_30_100: "round_double ((5404319552844595 / 2 ^ 54) * 100) = 30"
  by (rule round_double_near [where k = 48 and n = 8444249301319680]) simp_all

lemma rd_share_32: "round_double (32 / 100) = 5764607523034235 / 2 ^ 54"
  by (rule round_double_near [where k = 54 and n = 5764607523034235]) simp_all

lemma rd_share_32_100: "round_double ((5764607523034235 / 2 ^ 54) * 100) = 32"
  by (rule round_double_near [where k = 47 and n = 4503599627370496]) simp_all

lemma rd_share_35: "round_double (35 / 100) = 3152519739159347 / 2 ^ 53"
  by (rule round_double_near [where k = 54 and n = 6305039478318694]) simp_all

lemma rd_share_35_100: "round_double ((3152519739159347 / 2 ^ 53) * 100) = 35"
  by (rule round_double_near [where k = 47 and n = 4925812092436480]) simp_all

lemma rd_share_36: "round_double (36 / 100) = 3242591731706757 / 2 ^ 53"
  by (rule round_double_near [where k = 54 and n = 6485183463413514]) simp_all

lemma rd_share_36_100: "round_double ((3242591731706757 / 2 ^ 53) * 100) = 36"
  by (rule round_double_near [where k = 47 and n = 5066549580791808]) simp_all

lemma rd_share_40: "round_double (40 / 100) = 3602879701896397 / 2 ^ 53"
  by (rule round_double_near [where k = 54 and n = 7205759403792794]) simp_all

lemma rd_share_40_100: "round_double ((3602879701896397 / 2 ^ 53) * 100) = 40"
  by (rule round_double_near [where k = 47 and n = 5629499534213120]) simp_all

lemma rd_share_44: "round_double (44 / 100) = 7926335344172073 / 2 ^ 54"
  by (rule round_double_near [where k = 54 and n = 7926335344172073]) simp_all

lemma rd_share_44_100: "round_double ((7926335344172073 / 2 ^ 54) * 100) = 44"
  by (rule round_double_near [where k = 47 and n = 6192449487634432]) simp_all

lemma rd_share_45: "round_double (45 / 100) = 8106479329266893 / 2 ^ 54"
  by (rule round_double_near [where k = 54 and n = 8106479329266893]) simp_all

lemma rd_share_45_100: "round_double ((8106479329266893 / 2 ^ 54) * 100) = 45"
  by (rule round_double_near [where k = 47 and n = 6333186975989760]) simp_all

lemma rd_share_48: "round_double (48 / 100) = 1080863910568919 / 2 ^ 51"
  by (rule round_double_near [where k = 54 and n = 8646911284551352]) simp_all

lemma rd_share_48_100: "round_double ((1080863910568919 / 2 ^ 51) * 100) = 48"
  by (rule round_double_near [where k = 47 and n = 6755399441055744]) simp_all

lemma rd_share_50: "round_double (50 / 100) = 1 / 2 ^ 1"
  by (rule round_double_near [where k = 53 and n = 4503599627370496]) simp_all

lemma rd_share_50_100: "round_double ((1 / 2 ^ 1) * 100) = 50"
  by (rule round_double_near [where k = 47 and n = 7036874417766400]) simp_all

lemma rd_share_52: "round_double (52 / 100) = 1170935903116329 / 2 ^ 51"
  by (rule round_double_near [where k = 53 and n = 4683743612465316]) simp_all

lemma rd_share_52_100: "round_double ((1170935903116329 / 2 ^ 51) * 100) = 52"
  by (rule round_double_near [where k = 47 and n = 7318349394477056]) simp_all

lemma rd_share_55: "round_double (55 / 100) = 2476979795053773 / 2 ^ 52"
  by (rule round_double_near [where k = 53 and n = 4953959590107546]) simp_all

lemma rd_share_55_100: "round_double ((2476979795053773 / 2 ^ 52) * 100) = 7740561859543041 / 2 ^ 47"
  by (rule round_double_near [where k = 47 and n = 7740561859543041]) simp_all

lemma rd_share_56: "round_double (56 / 100) = 1261007895663739 / 2 ^ 51"
  by (rule round_double_near [where k = 53 and n = 5044031582654956]) simp_all

lemma rd_share_56_100: "round_double ((1261007895663739 / 2 ^ 51) * 100) = 7881299347898369 / 2 ^ 47"
  by (rule round_double_near [where k = 47 and n = 7881299347898369]) simp_all

lemma rd_share_60: "round_double (60 / 100) = 5404319552844595 / 2 ^ 53"
  by (rule round_double_near [where k = 53 and n = 5404319552844595]) simp_all

lemma rd_share_60_100: "round_double ((5404319552844595 / 2 ^ 53) * 100) = 60"
  by (rule round_double_near [where k = 47 and n = 8444249301319680]) simp_all

lemma rd_share_64: "round_double (64 / 100) = 5764607523034235 / 2 ^ 53"
  by (rule round_double_near [where k = 53 and n = 5764607523034235]) simp_all

lemma rd_share_64_100: "round_double ((5764607523034235 / 2 ^ 53) * 100) = 64"
  by (rule round_double_near [where k = 46 and n = 4503599627370496]) simp_all

lemma rd_share_65: "round_double (65 / 100) = 5854679515581645 / 2 ^ 53"
  by (rule round_double_near [where k = 53 and n = 5854679515581645]) simp_all

lemma rd_share_65_100: "round_double ((5854679515581645 / 2 ^ 53) * 100) = 65"
  by (rule round_double_near [where k = 46 and n = 4573968371548160]) simp_all

lemma rd_share_68: "round_double (68 / 100) = 6124895493223875 / 2 ^ 53"
  by (rule round_double_near [where k = 53 and n = 6124895493223875]) simp_all

lemma rd_share_68_100: "round_double ((6124895493223875 / 2 ^ 53) * 100) = 68"
  by (rule round_double_near [where k = 46 and n = 4785074604081152]) simp_all

lemma rd_share_70: "round_double (70 / 100) = 3152519739159347 / 2 ^ 52"
  by (rule round_double_near [where k = 53 and n = 6305039478318694]) simp_all

lemma rd_share_70_100: "round_double ((3152519739159347 / 2 ^ 52) * 100) = 70"
  by (rule round_double_near [where k = 46 and n = 4925812092436480]) simp_all

lemma rd_share_72: "round_double (72 / 100) = 3242591731706757 / 2 ^ 52"
  by (rule round_double_near [where k = 53 and n = 6485183463413514]) simp_all

lemma rd_share_72_100: "round_double ((3242591731706757 / 2 ^ 52) * 100) = 72"
  by (rule round_double_near [where k = 46 and n = 5066549580791808]) simp_all

lemma rd_share_75: "round_double (75 / 100) = 3 / 2 ^ 2"
  by (rule round_double_near [where k = 53 and n = 6755399441055744]) simp_all

lemma rd_share_75_100: "round_double ((3 / 2 ^ 2) * 100) = 75"
  by (rule round_double_near [where k = 46 and n = 5277655813324800]) simp_all

lemma rd_share_76: "round_double (76 / 100) = 3422735716801577 / 2 ^ 52"
  by (rule round_double_near [where k = 53 and n = 6845471433603154]) simp_all

lemma rd_share_76_100: "round_double ((3422735716801577 / 2 ^ 52) * 100) = 76"
  by (rule round_double_near [where k = 46 and n = 5348024557502464]) simp_all

lemma rd_share_80: "round_double (80 / 100) = 3602879701896397 / 2 ^ 52"
  by (rule round_double_near [where k = 53 and n = 7205759403792794]) simp_all

lemma rd_share_80_100: "round_double ((3602879701896397 / 2 ^ 52) * 100) = 80"
  by (rule round_double_near [where k = 46 and n = 5629499534213120]) simp_all

lemma rd_share_84: "round_double (84 / 100) = 7566047373982433 / 2 ^ 53"
  by (rule round_double_near [where k = 53 and n = 7566047373982433]) simp_all

lemma rd_share_84_100: "round_double ((7566047373982433 / 2 ^ 53) * 100) = 84"
  by (rule round_double_near [where k = 46 and n = 5910974510923776]) simp_all

lemma rd_share_85: "round_double (85 / 100) = 7656119366529843 / 2 ^ 53"
  by (rule round_double_near [where k = 53 and n = 7656119366529843]) simp_all

lemma rd_share_85_100: "round_double ((7656119366529843 / 2 ^ 53) * 100) = 85"
  by (rule round_double_near [where k = 46 and n = 5981343255101440]) simp_all

lemma rd_share_88: "round_double (88 / 100) = 7926335344172073 / 2 ^ 53"
  by (rule round_double_near [where k = 53 and n = 7926335344172073]) simp_all

lemma rd_share_88_100: "round_double ((7926335344172073 / 2 ^ 53) * 100) = 88"
  by (rule round_double_near [where k = 46 and n = 6192449487634432]) simp_all

lemma rd_share_90: "round_double (90 / 100) = 8106479329266893 / 2 ^ 53"
  by (rule round_double_near [where k = 53 and n = 8106479329266893]) simp_all

lemma rd_share_90_100: "round_double ((8106479329266893 / 2 ^ 53) * 100) = 90"
  by (rule round_double_near [where k = 46 and n = 6333186975989760]) simp_all

lemma rd_share_92: "round_double (92 / 100) = 8286623314361713 / 2 ^ 53"
  by (rule round_double_near [where k = 53 and n = 8286623314361713]) simp_all

lemma rd_share_92_100: "round_double ((8286623314361713 / 2 ^ 53) * 100) = 92"
  by (rule round_double_near [where k = 46 and n = 6473924464345088]) simp_all

lemma rd_share_95: "round_double (95 / 100) = 4278419646001971 / 2 ^ 52"
  by (rule round_double_near [where k = 53 and n = 8556839292003942]) simp_all

lemma rd_share_95_100: "round_double ((4278419646001971 / 2 ^ 52) * 100) = 95"
  by (rule round_double_near [where k = 46 and n = 6685030696878080]) simp_all

lemma rd_share_96: "round_double (96 / 100) = 1080863910568919 / 2 ^ 50"
  by (rule round_double_near [where k = 53 and n = 8646911284551352]) simp_all

lemma rd_share_96_100: "round_double ((1080863910568919 / 2 ^ 50) * 100) = 96"
  by (rule round_double_near [where k = 46 and n = 6755399441055744]) simp_all

lemma rd_share_100: "round_double (100 / 100) = 1"
  by (rule round_double_near [where k = 52 and n = 4503599627370496]) simp_all

lemma rd_share_100_100: "round_double (1 * 100) = 100"
  by (rule round_double_near [where k = 46 and n = 7036874417766400]) simp_all


lemma round_double_0: "round_double 0 = 0"
  by (simp add: round_double_def)

lemma share_table:
  assumes "j \<in> set [0, 4, 5, 8, 10, 12, 15, 16, 20, 24, 25, 28, 30, 32, 35, 36, 40, 44, 45, 48, 50, 52, 55, 56, 60, 64, 65, 68, 70, 72, 75, 76, 80, 84, 85, 88, 90, 92, 95, 96, 100]"
  shows "trunc (round_double (round_double (of_int j / 100) * 100)) = j"
  using assms
  apply (simp only: list.set insert_iff empty_iff simp_thms)
  apply (elim disjE; hypsubst)
  apply (simp_all only: of_int_numeral of_int_0 div_0 mult_zero_left round_double_0
           rd_share_4 rd_share_4_100 rd_share_5 rd_share_5_100 rd_share_8 rd_share_8_100 rd_share_10 rd_share_10_100 rd_share_12 rd_share_12_100 rd_share_15 rd_share_15_100 rd_share_16 rd_share_16_100 rd_share_20 rd_share_20_100 rd_share_24 rd_share_24_100 rd_share_25 rd_share_25_100 rd_share_28 rd_share_28_100 rd_share_30 rd_share_30_100 rd_share_32 rd_share_32_100 rd_share_35 rd_share_35_100 rd_share_36 rd_share_36_100 rd_share_40 rd_share_40_100 rd_share_44 rd_share_44_100 rd_share_45 rd_share_45_100 rd_share_48 rd_share_48_100 rd_share_50 rd_share_50_100 rd_share_52 rd_share_52_100 rd_share_55 rd_share_55_100 rd_share_56 rd_share_56_100 rd_share_60 rd_share_60_100 rd_share_64 rd_share_64_100 rd_share_65 rd_share_65_100 rd_share_68 rd_share_68_100 rd_share_70 rd_share_70_100 rd_share_72 rd_share_72_100 rd_share_75 rd_share_75_100 rd_share_76 rd_share_76_100 rd_share_80 rd_share_80_100 rd_share_84 rd_share_84_100 rd_share_85 rd_share_85_100 rd_share_88 rd_share_88_100 rd_share_90 rd_share_90_100 rd_share_92 rd_share_92_100 rd_share_95 rd_share_95_100 rd_share_96 rd_share_96_100 rd_share_100 rd_share_100_100)
  apply (simp_all add: trunc_def floor_eq_iff)
  done

lemma grid_filter:
  "filter (\<lambda>j. 4 dvd j \<or> 5 dvd j) [0..100]
     = [0, 4, 5, 8, 10, 12, 15, 16, 20, 24, 25, 28, 30, 32, 35, 36, 40, 44, 45, 48, 50,
        52, 55, 56, 60, 64, 65, 68, 70, 72, 75, 76, 80, 84, 85, 88, 90, 92, 95, 96, 100]"
  by code_simp

lemma grid_list:
  fixes j :: int
  assumes "0 \<le> j" "j \<le> 100" "4 dvd j \<or> 5 dvd j"
  shows "j \<in> set [0, 4, 5, 8, 10, 12, 15, 16, 20, 24, 25, 28, 30, 32, 35, 36, 40, 44, 45, 48, 50,
                    52, 55, 56, 60, 64, 65, 68, 70, 72, 75, 76, 80, 84, 85, 88, 90, 92, 95, 96, 100]"
proof -
  have "j \<in> set (filter (\<lambda>j. 4 dvd j \<or> 5 dvd j) [0..100])"
    using assms by simp
  then show ?thesis by (simp only: grid_filter)
qed

lemma small_denominator:
  fixes j a b :: int
  assumes "0 < b" "b \<le> 33" "100 * a = b * j"
  shows "4 dvd j \<or> 5 dvd j"
proof (cases "5 dvd j")
  case True
  then show ?thesis by simp
next
  case False
  then have "j mod 5 = 1 \<or> j mod 5 = 2 \<or> j mod 5 = 3 \<or> j mod 5 = 4" by presburger
  moreover have "gcd j 5 = gcd 5 (j mod 5)" by (rule gcd_red_int)
  moreover have "gcd (5::int) 1 = 1" "gcd (5::int) 2 = 1" "gcd (5::int) 3 = 1" "gcd (5::int) 4 = 1"
    by code_simp+
  ultimately have "gcd j 5 = 1" by auto
  then have "coprime j 5" by (simp only: coprime_iff_gcd_eq_1)
  then have "coprime 5 j" by (simp only: coprime_commute)
  then have "coprime (5 ^ 2) j" by (simp only: coprime_power_left_iff) simp
  then have c: "coprime 25 j" by simp
  have "b * j = 25 * (4 * a)" using assms(3) by simp
  then have "25 dvd b * j" by (simp only: dvd_triv_left)
  with c have "25 dvd b" by (simp only: coprime_dvd_mult_left_iff)
  then obtain c where "b = 25 * c" by (auto simp: dvd_def)
  with assms(1,2) have "b = 25" by simp
  with assms(3) have "j = 4 * a" by simp
  then show ?thesis by simp
qed

lemma floor_near_grid_exact:
  fixes F X :: rat and m d :: int
  assumes "0 < d" "of_int d * X = of_int m" "\<bar>F - X\<bar> < 1 / of_int d" "\<not> d dvd m"
  shows "\<lfloor>F\<rfloor> = \<lfloor>X\<rfloor>"
proof -
  have dpos: "(0::rat) < of_int d" using assms(1) by simp
  have "m \<noteq> d * \<lfloor>X\<rfloor>" using assms(4) by auto
  moreover have "of_int d * of_int \<lfloor>X\<rfloor> \<le> of_int d * X"
    using dpos by (simp only: mult_le_cancel_left_pos) simp
  then have "(of_int (d * \<lfloor>X\<rfloor>) :: rat) \<le> of_int m" using assms(2) by simp
  then have "d * \<lfloor>X\<rfloor> \<le> m" by (simp only: of_int_le_iff)
  ultimately have "d * \<lfloor>X\<rfloor> + 1 \<le> m" by simp
  then have "(of_int (d * \<lfloor>X\<rfloor> + 1) :: rat) \<le> of_int m" by (simp only: of_int_le_iff)
  moreover have "of_int d * (of_int \<lfloor>X\<rfloor> + 1 / of_int d) = (of_int (d * \<lfloor>X\<rfloor> + 1) :: rat)"
    using dpos by (simp add: field_simps)
  ultimately have "of_int d * (of_int \<lfloor>X\<rfloor> + 1 / of_int d) \<le> of_int d * X"
    using assms(2) by (simp only:)
  then have "of_int \<lfloor>X\<rfloor> + 1 / of_int d \<le> X"
    using dpos by (simp only: mult_le_cancel_left_pos)
  then have "of_int \<lfloor>X\<rfloor> \<le> F" using assms(3) by (simp add: abs_less_iff)
  then have "\<lfloor>X\<rfloor> \<le> \<lfloor>F\<rfloor>" by (simp only: le_floor_iff)
  then show ?thesis using floor_near_grid(2) [OF assms(1-3)] by simp
qed

lemma double_percentage_exact:
  assumes "a \<le> b" "0 < b" "b \<le> 33"
  shows "double_percentage a b = exact_percentage a b"
proof (cases "int b dvd 100 * int a")
  case False
  let ?X = "of_nat a / of_nat b * 100 :: rat"
  let ?F = "round_double (round_double (of_nat a / of_nat b) * 100)"
  have err: "\<bar>?F - ?X\<bar> \<le> 101 / 2 ^ 47" using assms(1,2) by (rule double_percentage_error)
  have "(of_nat b :: rat) \<le> 33" using assms(3) by (metis of_nat_le_iff of_nat_numeral)
  then have "(101 :: rat) / 2 ^ 47 < 1 / of_nat b"
    using assms(2) by (simp add: field_simps)
  with err have near: "\<bar>?F - ?X\<bar> < 1 / of_int (int b)" by simp
  have grid: "of_int (int b) * ?X = of_int (100 * int a)" using assms(2) by simp
  have bpos: "0 < int b" using assms(2) by simp
  have X0: "0 \<le> ?X" by simp
  have F0: "0 \<le> ?F"
    by (intro round_double_nonneg mult_nonneg_nonneg) simp_all
  have "double_percentage a b = \<lfloor>?F\<rfloor>"
    using F0 by (simp only: double_percentage_def trunc_nonneg)
  moreover have "exact_percentage a b = \<lfloor>?X\<rfloor>"
    using X0 by (simp only: exact_percentage_def trunc_nonneg)
  ultimately show ?thesis
    using floor_near_grid_exact [OF bpos grid near False] by simp
next
  case True
  then obtain j where j: "100 * int a = int b * j" by (auto simp: dvd_def)
  have bpos: "0 < int b" "int b \<le> 33" using assms(2,3) by simp_all
  have "0 \<le> int b * j" using j by simp
  then have j0: "0 \<le> j" using bpos(1) by (simp add: zero_le_mult_iff)
  have "int b * j \<le> int b * 100" using j assms(1) by simp
  then have j100: "j \<le> 100" using bpos(1) by simp
  have "4 dvd j \<or> 5 dvd j" using bpos j by (rule small_denominator)
  with j0 j100 have t: "trunc (round_double (round_double (of_int j / 100) * 100)) = j"
    by (intro share_table grid_list)
  have "(of_int (100 * int a) :: rat) = of_int (int b * j)" using j by (simp only:)
  then have q: "of_nat a / of_nat b = (of_int j / 100 :: rat)"
    using assms(2) by (simp add: field_simps)
  have "trunc (of_int j / 100 * 100) = j" by (simp add: trunc_def)
  then show ?thesis
    by (simp only: double_percentage_def exact_percentage_def q t)
qed

subsection \<open>The experience match\<close>

lemma tenths_1: "trunc (round_double (round_double (1 / 10) * 100)) = 10"
  by (simp only: rd_1_tenths rd_1_tenths_100) (simp add: trunc_def)

lemma tenths_2: "trunc (round_double (round_double (2 / 10) * 100)) = 20"
  by (simp only: rd_2_tenths rd_2_tenths_100) (simp add: trunc_def)

lemma tenths_3: "trunc (round_double (round_double (3 / 10) * 100)) = 30"
  by (simp only: rd_3_tenths rd_3_tenths_100) (simp add: trunc_def)

lemma tenths_4: "trunc (round_double (round_double (4 / 10) * 100)) = 40"
  by (simp only: rd_4_tenths rd_4_tenths_100) (simp add: trunc_def)

lemma tenths_5: "trunc (round_double (round_double (5 / 10) * 100)) = 50"
  by (simp only: rd_5_tenths rd_5_tenths_100) (simp add: trunc_def)

lemma tenths_6: "trunc (round_double (round_double (6 / 10) * 100)) = 60"
  by (simp only: rd_6_tenths rd_6_tenths_100) (simp add: trunc_def)

lemma tenths_7: "trunc (round_double (round_double (7 / 10) * 100)) = 70"
  by (simp only: rd_7_tenths rd_7_tenths_100) (simp add: trunc_def)

lemma tenths_8: "trunc (round_double (round_double (8 / 10) * 100)) = 80"
  by (simp only: rd_8_tenths rd_8_tenths_100) (simp add: trunc_def)

lemma tenths_9: "trunc (round_double (round_double (9 / 10) * 100)) = 90"
  by (simp only: rd_9_tenths rd_9_tenths_100) (simp add: trunc_def)

lemma tenths:
  assumes "0 < Y" "Y < 10"
  shows "trunc (round_double (round_double (of_int Y / 10) * 100)) = 10 * Y"
proof -
  from assms consider "Y = 1" | "Y = 2" | "Y = 3" | "Y = 4" | "Y = 5" | "Y = 6" | "Y = 7" | "Y = 8" | "Y = 9"
    by linarith
  then show ?thesis
  proof cases
    case 1
    have "trunc (round_double (round_double (of_int 1 / 10) * 100)) = 10"
      by (simp only: of_int_numeral of_int_1 tenths_1)
    with 1 show ?thesis by simp
  next
    case 2
    have "trunc (round_double (round_double (of_int 2 / 10) * 100)) = 20"
      by (simp only: of_int_numeral of_int_1 tenths_2)
    with 2 show ?thesis by simp
  next
    case 3
    have "trunc (round_double (round_double (of_int 3 / 10) * 100)) = 30"
      by (simp only: of_int_numeral of_int_1 tenths_3)
    with 3 show ?thesis by simp
  next
    case 4
    have "trunc (round_double (round_double (of_int 4 / 10) * 100)) = 40"
      by (simp only: of_int_numeral of_int_1 tenths_4)
    with 4 show ?thesis by simp
  next
    case 5
    have "trunc (round_double (round_double (of_int 5 / 10) * 100)) = 50"
      by (simp only: of_int_numeral of_int_1 tenths_5)
    with 5 show ?thesis by simp
  next
    case 6
    have "trunc (round_double (round_double (of_int 6 / 10) * 100)) = 60"
      by (simp only: of_int_numeral of_int_1 tenths_6)
    with 6 show ?thesis by simp
  next
    case 7
    have "trunc (round_double (round_double (of_int 7 / 10) * 100)) = 70"
      by (simp only: of_int_numeral of_int_1 tenths_7)
    with 7 show ?thesis by simp
  next
    case 8
    have "trunc (round_double (round_double (of_int 8 / 10) * 100)) = 80"
      by (simp only: of_int_numeral of_int_1 tenths_8)
    with 8 show ?thesis by simp
  next
    case 9
    have "trunc (round_double (round_double (of_int 9 / 10) * 100)) = 90"
      by (simp only: of_int_numeral of_int_1 tenths_9)
    with 9 show ?thesis by simp
  qed
qed

lemma float_100: "float_of_int 100 = Inr (Fin 100)"
  using float_of_int_small [of 100] by simp

lemma experience_match_Nil: "findall_years text = [] \<Longrightarrow> experience_match text = Inr 0"
  by (simp add: experience_match_def)

lemma experience_match_zero:
  "findall_years text = g # gs \<Longrightarrow> int_of_digits g \<le> 0 \<Longrightarrow> experience_match text = Inr 0"
  by (simp add: experience_match_def)

text \<open>The steps of the experience computation for a positive number of years.\<close>

lemma experience_match_pos:
  assumes "findall_years text = g # gs" "0 < int_of_digits g"
  shows "experience_match text =
     (let q = round_double (of_int (int_of_digits g) / 10); p = round_double (q * 100)
      in if overflows q \<or> overflows p then Inl OverflowError else Inr (min (trunc p) 100))"
  using assms
  by (simp add: experience_match_def Let_def true_div_def bindE_def float_times_int_def
                float_100 to_float_def int_of_float_def)

lemma experience_range:
  assumes "experience_match text = Inr ex"
  shows "0 \<le> ex \<and> ex \<le> 100"
proof (cases "findall_years text")
  case Nil
  then show ?thesis using assms by (simp add: experience_match_Nil)
next
  case (Cons g gs)
  show ?thesis
  proof (cases "0 < int_of_digits g")
    case False
    then show ?thesis using assms Cons by (simp add: experience_match_zero)
  next
    case True
    let ?q = "round_double (of_int (int_of_digits g) / 10)"
    let ?p = "round_double (?q * 100)"
    have "0 \<le> ?q" using True by (intro round_double_nonneg) simp
    then have "0 \<le> ?p" by (intro round_double_nonneg) simp
    then have "0 \<le> trunc ?p" by (simp add: trunc_def)
    moreover have "ex = min (trunc ?p) 100"
      using assms experience_match_pos [OF Cons True] by (simp add: Let_def split: if_splits)
    ultimately show ?thesis by simp
  qed
qed

lemma powi_numeral: "(2::rat) powi (numeral n) = 2 ^ numeral n"
  by (simp add: power_int_def)

lemma round_double_pow2_nat: "round_double (2 ^ n) = 2 ^ n"
  using round_double_pow2 [of "int n"] by (simp add: power_int_def)

text \<open>Up to \<open>10 ^ 306\<close> years nothing overflows, and the value is the capped percentage.\<close>

lemma experience_match_value:
  assumes "findall_years text = g # gs" "0 < int_of_digits g" "int_of_digits g \<le> 10 ^ 306"
  shows "experience_match text = Inr (min (10 * int_of_digits g) 100)"
proof -
  let ?Y = "int_of_digits g"
  let ?x = "of_int ?Y / 10 :: rat"
  let ?q = "round_double ?x"
  let ?p = "round_double (?q * 100)"
  have "(of_int ?Y :: rat) \<le> of_int (10 ^ 306)" using assms(3) by (simp only: of_int_le_iff)
  then have "?x \<le> 10 ^ 305" by simp
  also have "(10::rat) ^ 305 \<le> 2 ^ 1014" by simp
  finally have x_hi: "?x \<le> 2 ^ 1014" .
  have x0: "0 \<le> ?x" using assms(2) by simp
  have q0: "0 \<le> ?q" using x0 by (rule round_double_nonneg)
  have q_hi: "?q \<le> 2 ^ 1014"
    using round_double_mono [OF x0 x_hi] by (simp only: round_double_pow2_nat)
  have "?q * 100 \<le> 2 ^ 1014 * 100" using q_hi by simp
  also have "(2::rat) ^ 1014 * 100 \<le> 2 ^ 1021" by simp
  finally have qp_hi: "?q * 100 \<le> 2 ^ 1021" .
  have qp0: "0 \<le> ?q * 100" using q0 by simp
  have p0: "0 \<le> ?p" using qp0 by (rule round_double_nonneg)
  have p_hi: "?p \<le> 2 ^ 1021"
    using round_double_mono [OF qp0 qp_hi] by (simp only: round_double_pow2_nat)
  have "(2::rat) ^ 1014 < 2 ^ 1024" "(2::rat) ^ 1021 < 2 ^ 1024" by simp_all
  then have lt: "?q < 2 ^ 1024" "?p < 2 ^ 1024" using q_hi p_hi by linarith+
  have no: "\<not> overflows ?q" "\<not> overflows ?p"
    by (rule not_overflows [OF q0 lt(1)], rule not_overflows [OF p0 lt(2)])
  have val: "experience_match text = Inr (min (trunc ?p) 100)"
    using experience_match_pos [OF assms(1,2)] no by (simp add: Let_def)
  show ?thesis
  proof (cases "?Y < 10")
    case True
    then show ?thesis using val tenths [OF assms(2) True] by simp
  next
    case False
    then have "10 \<le> ?Y" by simp
    then have "(of_int 10 :: rat) \<le> of_int ?Y" by (simp only: of_int_le_iff)
    then have "1 \<le> ?x" by simp
    then have "1 \<le> ?q" using round_double_mono [of 1 ?x] by (simp add: rd_1)
    then have "100 \<le> ?q * 100" by simp
    then have "100 \<le> ?p" using round_double_mono [of 100 "?q * 100"] by (simp add: rd_100)
    then have "100 \<le> trunc ?p" by (simp add: trunc_def le_floor_iff)
    then show ?thesis using val False by simp
  qed
qed

text \<open>From \<open>10 ^ 308\<close> years on the computation raises.\<close>

lemma experience_match_overflow:
  assumes "findall_years text = g # gs" "10 ^ 308 \<le> int_of_digits g"
  shows "experience_match text = Inl OverflowError"
proof -
  let ?Y = "int_of_digits g"
  let ?x = "of_int ?Y / 10 :: rat"
  let ?q = "round_double ?x"
  let ?p = "round_double (?q * 100)"
  have Y0: "0 < ?Y" using assms(2) by (rule less_le_trans [rotated]) simp
  have "(of_int (10 ^ 308) :: rat) \<le> of_int ?Y" using assms(2) by (simp only: of_int_le_iff)
  then have "(10::rat) ^ 307 \<le> ?x" by simp
  moreover have "(2::rat) ^ 1019 \<le> 10 ^ 307" by simp
  ultimately have x_lo: "2 ^ 1019 \<le> ?x" by (rule order_trans [rotated])
  have "round_double (2 ^ 1019) \<le> ?q" by (rule round_double_mono [OF _ x_lo]) simp
  then have q_lo: "2 ^ 1019 \<le> ?q" by (simp only: round_double_pow2_nat)
  have "(2::rat) ^ 1024 \<le> 2 ^ 1019 * 100" by simp
  also have "\<dots> \<le> ?q * 100" using q_lo by simp
  finally have qp_lo: "2 ^ 1024 \<le> ?q * 100" .
  have "round_double (2 ^ 1024) \<le> ?p" by (rule round_double_mono [OF _ qp_lo]) simp
  then have "2 ^ 1024 \<le> ?p" by (simp only: round_double_pow2_nat)
  then have "overflows ?p" unfolding overflows_def by linarith
  then show ?thesis using experience_match_pos [OF assms(1) Y0] by (simp add: Let_def)
qed

subsection \<open>The scorer in terms of its arithmetic\<close>

lemma card_professional_terms: "card professional_terms = 14"
  by (simp add: professional_terms_def)

lemma finite_catalogs: "finite tech_skills" "finite professional_terms"
  by (simp_all add: tech_skills_def professional_terms_def)

lemma tone_match_value:
  "tone_match (set resume_keywords) = Inr (tone_score resume_keywords)"
  "0 \<le> tone_score resume_keywords" "tone_score resume_keywords \<le> 100"
proof -
  have "card (set resume_keywords \<inter> professional_terms) \<le> 14"
    using card_mono [of professional_terms "set resume_keywords \<inter> professional_terms"]
    by (simp add: finite_catalogs card_professional_terms)
  then show "tone_match (set resume_keywords) = Inr (tone_score resume_keywords)"
    "0 \<le> tone_score resume_keywords" "tone_score resume_keywords \<le> 100"
    using percent_value [of "card (set resume_keywords \<inter> professional_terms)" 14]
    by (simp_all add: tone_match_def tone_score_def card_professional_terms Let_def)
qed

lemma keywords_value:
  assumes "set jd_keywords \<noteq> {}"
  shows "percent (card (set jd_keywords \<inter> set resume_keywords)) (card (set jd_keywords))
           = Inr (keywords_score resume_keywords jd_keywords)"
    and "0 \<le> keywords_score resume_keywords jd_keywords"
    and "keywords_score resume_keywords jd_keywords \<le> 100"
proof -
  have le: "card (set jd_keywords \<inter> set resume_keywords) \<le> card (set jd_keywords)"
    by (intro card_mono) auto
  have pos: "0 < card (set jd_keywords)" using assms by (simp add: card_gt_0_iff)
  show "percent (card (set jd_keywords \<inter> set resume_keywords)) (card (set jd_keywords))
           = Inr (keywords_score resume_keywords jd_keywords)"
    and "0 \<le> keywords_score resume_keywords jd_keywords"
    and "keywords_score resume_keywords jd_keywords \<le> 100"
    using percent_value [OF le pos] by (simp_all add: keywords_score_def Int_commute)
qed

lemma skills_value:
  shows "(if set jd_keywords \<inter> tech_skills \<noteq> {}
          then percent (card (set jd_keywords \<inter> tech_skills \<inter> (set resume_keywords \<inter> tech_skills)))
                 (card (set jd_keywords \<inter> tech_skills))
          else Inr 0) = Inr (skills_score resume_keywords jd_keywords)"
    and "0 \<le> skills_score resume_keywords jd_keywords"
    and "skills_score resume_keywords jd_keywords \<le> 100"
proof -
  let ?J = "set jd_keywords \<inter> tech_skills" and ?R = "set resume_keywords \<inter> tech_skills"
  have le: "card (?J \<inter> ?R) \<le> card ?J" by (intro card_mono) auto
  have pos: "?J \<noteq> {} \<Longrightarrow> 0 < card ?J" by (simp add: card_gt_0_iff)
  show "(if ?J \<noteq> {} then percent (card (?J \<inter> ?R)) (card ?J) else Inr 0)
          = Inr (skills_score resume_keywords jd_keywords)"
    and "0 \<le> skills_score resume_keywords jd_keywords"
    and "skills_score resume_keywords jd_keywords \<le> 100"
    using percent_value [OF le pos] by (auto simp: skills_score_def Let_def)
qed

text \<open>The scorer on a job description with keywords, in terms of its arithmetic.\<close>

lemma score_value:
  assumes "set (extract_keywords jd_text) \<noteq> {}"
  shows "calculate_match_score resume_text jd_text =
     (let keywords = keywords_score (extract_keywords resume_text) (extract_keywords jd_text);
          skills = skills_score (extract_keywords resume_text) (extract_keywords jd_text);
          tone = tone_score (extract_keywords resume_text)
      in case experience_match resume_text of
           Inl e \<Rightarrow> Inl e
         | Inr experience \<Rightarrow>
             Inr (double_weighted_score skills experience keywords tone, skills, experience, keywords,
                  summary_text keywords skills))"
proof -
  let ?r = "extract_keywords resume_text" and ?j = "extract_keywords jd_text"
  note k = keywords_value [OF assms, where resume_keywords = ?r]
  note s = skills_value [where jd_keywords = ?j and resume_keywords = ?r]
  note t = tone_match_value [where resume_keywords = ?r]
  show ?thesis
  proof (cases "experience_match resume_text")
    case (Inl e)
    then show ?thesis
      using assms by (simp add: calculate_match_score_def Let_def k(1) s(1) bindE_def)
  next
    case (Inr experience)
    from experience_range [OF Inr] have e: "0 \<le> experience" "experience \<le> 100" by simp_all
    have o: "overall_score (skills_score ?r ?j) experience (keywords_score ?r ?j) (tone_score ?r)
               = Inr (double_weighted_score (skills_score ?r ?j) experience (keywords_score ?r ?j)
                        (tone_score ?r))"
      using s(2,3) e k(2,3) t(2,3) by (rule overall_value(1))
    show ?thesis
      using assms
      by (simp add: calculate_match_score_def Let_def k(1) s(1) t(1) o Inr bindE_def)
  qed
qed

section \<open>Properties of the Match Scorer\<close>

lemma summary_text_neq: "summary_text k s \<noteq> ''Unable to analyze''"
  by (simp add: summary_text_def)

text \<open>
  C3. Whatever the resume text, the scorer returns exactly
  \<open>(0, 0, 0, 0, "Unable to analyze")\<close> when the keyword set of the job description is
  empty, and on no other path: with a non-empty keyword set the result is either an
  exception or a tuple whose summary is the "Your resume matches ..." sentence.
\<close>

theorem only_early_exit:
  "calculate_match_score resume_text jd_text = Inr (0, 0, 0, 0, ''Unable to analyze'')
     \<longleftrightarrow> set (extract_keywords jd_text) = {}"
proof
  assume "set (extract_keywords jd_text) = {}"
  then show "calculate_match_score resume_text jd_text = Inr (0, 0, 0, 0, ''Unable to analyze'')"
    by (simp add: calculate_match_score_def)
next
  assume r: "calculate_match_score resume_text jd_text = Inr (0, 0, 0, 0, ''Unable to analyze'')"
  show "set (extract_keywords jd_text) = {}"
  proof (rule ccontr)
    assume "set (extract_keywords jd_text) \<noteq> {}"
    with r show False
      by (auto simp: calculate_match_score_def bindE_def Let_def summary_text_neq
               split: sum.splits if_splits)
  qed
qed

lemma stop_words_only_no_keywords: "set (extract_keywords ''the and of'') = {}"
  by code_simp

theorem only_early_exit_witness:
  "set (extract_keywords ''the and of'') = {}
   \<and> calculate_match_score ''Python developer, 5 years'' ''the and of''
       = Inr (0, 0, 0, 0, ''Unable to analyze'')"
  using only_early_exit [of "''Python developer, 5 years''" "''the and of''"]
    stop_words_only_no_keywords by simp

subsection \<open>A worked example\<close>

lemma double_percentage_zero: "double_percentage 0 b = 0"
  by (simp add: double_percentage_def round_double_def trunc_def)

lemma double_percentage_full: "0 < n \<Longrightarrow> double_percentage n n = 100"
  by (simp add: double_percentage_def rd_1 rd_100 trunc_def)

lemma example_resume_keywords:
  "extract_keywords ''Python developer, 5 years'' = [''python'', ''developer'', ''years'']"
  by code_simp

lemma example_jd_keywords: "extract_keywords ''python developer'' = [''python'', ''developer'']"
  by code_simp

lemma example_years: "findall_years ''Python developer, 5 years'' = [''5'']"
  by code_simp

lemma example_experience: "experience_match ''Python developer, 5 years'' = Inr 50"
proof -
  have "int_of_digits ''5'' = 5" by code_simp
  then show ?thesis using experience_match_value [OF example_years] by simp
qed

lemma example_keywords_score:
  "keywords_score [''python'', ''developer'', ''years''] [''python'', ''developer''] = 100"
proof -
  have "card (set [''python'', ''developer'', ''years''] \<inter> set [''python'', ''developer'']) = 2"
    by code_simp
  moreover have "card (set [''python'', ''developer'']) = 2"
    by code_simp
  ultimately show ?thesis
    by (simp only: keywords_score_def) (simp add: double_percentage_full)
qed

lemma example_skills_score:
  "skills_score [''python'', ''developer'', ''years''] [''python'', ''developer''] = 100"
proof -
  have "card (set [''python'', ''developer''] \<inter> tech_skills) = 1"
    by code_simp
  moreover have "card (set [''python'', ''developer''] \<inter> tech_skills
                   \<inter> (set [''python'', ''developer'', ''years''] \<inter> tech_skills)) = 1"
    by code_simp
  moreover have "set [''python'', ''developer''] \<inter> tech_skills \<noteq> {}"
    by code_simp
  ultimately show ?thesis
    by (simp only: skills_score_def Let_def) (simp add: double_percentage_full)
qed

lemma example_tone_score: "tone_score [''python'', ''developer'', ''years''] = 0"
proof -
  have "card (set [''python'', ''developer'', ''years''] \<inter> professional_terms) = 0"
    by code_simp
  then show ?thesis
    by (simp only: tone_score_def double_percentage_zero)
qed

lemma example_weighted: "double_weighted_score 100 50 100 0 = 75"
proof -
  have r: "round_double 0 = 0" "round_double 55 = 55" "round_double 75 = 75"
    using round_double_of_int [of 55] round_double_of_int [of 75]
    by (simp_all add: round_double_def)
  have "double_weighted_score 100 50 100 0
          = trunc (round_double (round_double (round_double (40 + 15) + 20) + round_double 0))"
    by (simp only: double_weighted_score_def of_int_numeral of_int_0 mult_zero_left
                   rd_lit_4 rd_lit_3 rd_lit_2 rd_lit_1 rd_100_lit_4 rd_50_lit_3 rd_100_lit_2)
  also have "\<dots> = 75" by (simp add: r trunc_def)
  finally show ?thesis .
qed

lemma example_summary:
  "summary_text 100 100 = ''Your resume matches 100% of job keywords with 100% skill alignment.''"
  by code_simp

lemma example_score:
  "calculate_match_score ''Python developer, 5 years'' ''python developer''
     = Inr (75, 100, 50, 100,
            ''Your resume matches 100% of job keywords with 100% skill alignment.'')"
proof -
  have "set (extract_keywords ''python developer'') \<noteq> {}"
    by (simp add: example_jd_keywords)
  from score_value [OF this, of "''Python developer, 5 years''"] show ?thesis
    by (simp only: example_resume_keywords example_jd_keywords example_experience
                   example_keywords_score example_skills_score example_tone_score
                   example_weighted example_summary Let_def sum.case)
qed


lemma double_percentage_29_of_50: "double_percentage 29 50 = 57"
  by (simp only: double_percentage_def of_nat_numeral rd_29_50 rd_29_50_100)
     (simp add: trunc_def floor_eq_iff)

subsection \<open>A resume whose overall score is one below the exact formula\<close>

text \<open>
  The resume \<^verbatim>\<open>Led and managed Python projects for 5 years\<close> against the job description
  \<^verbatim>\<open>python java sql aws docker react\<close>: one of six keywords and one of six skills
  (16 and 16), five years (50), two of the fourteen professional terms (14). On
  doubles \<^verbatim>\<open>16*0.4 + 50*0.3 + 16*0.2 + 14*0.1\<close> is 25.999999999999996.
\<close>

lemma double_percentage_1_of_6: "double_percentage 1 6 = 16"
  by (simp only: double_percentage_def of_nat_numeral of_nat_1 rd_1_6 rd_1_6_100)
     (simp add: trunc_def floor_eq_iff)

lemma double_percentage_2_of_14: "double_percentage 2 14 = 14"
  by (simp only: double_percentage_def of_nat_numeral rd_2_14 rd_2_14_100)
     (simp add: trunc_def floor_eq_iff)

lemma double_weighted_16_50_16_14: "double_weighted_score 16 50 16 14 = 25"
  by (simp only: double_weighted_score_def of_int_numeral rd_lit_4 rd_lit_3 rd_lit_2 rd_lit_1
                 rd_16_lit_4 rd_50_lit_3 rd_16_lit_2 rd_14_lit_1
                 rd_sum_16_50 rd_sum_16_50_16 rd_sum_16_50_16_14)
     (simp add: trunc_def floor_eq_iff)

lemma exact_weighted_16_50_16_14: "exact_weighted_score 16 50 16 14 = 26"
  by (simp add: exact_weighted_score_def trunc_def)

lemma led_resume_keywords:
  "extract_keywords ''Led and managed Python projects for 5 years''
     = [''led'', ''managed'', ''python'', ''projects'', ''years'']"
  by code_simp

lemma six_skills_jd_keywords:
  "extract_keywords ''python java sql aws docker react''
     = [''python'', ''java'', ''sql'', ''aws'', ''docker'', ''react'']"
  by code_simp

lemma led_resume_experience:
  "experience_match ''Led and managed Python projects for 5 years'' = Inr 50"
proof -
  have y: "findall_years ''Led and managed Python projects for 5 years'' = [''5'']"
    by code_simp
  have "int_of_digits ''5'' = 5" by code_simp
  then show ?thesis using experience_match_value [OF y] by simp
qed

lemma led_resume_scores:
  "keywords_score [''led'', ''managed'', ''python'', ''projects'', ''years'']
     [''python'', ''java'', ''sql'', ''aws'', ''docker'', ''react''] = 16"
  "skills_score [''led'', ''managed'', ''python'', ''projects'', ''years'']
     [''python'', ''java'', ''sql'', ''aws'', ''docker'', ''react''] = 16"
  "tone_score [''led'', ''managed'', ''python'', ''projects'', ''years''] = 14"
proof -
  let ?r = "[''led'', ''managed'', ''python'', ''projects'', ''years'']"
  let ?j = "[''python'', ''java'', ''sql'', ''aws'', ''docker'', ''react'']"
  have k: "card (set ?r \<inter> set ?j) = 1" "card (set ?j) = 6"
    by code_simp+
  have s: "set ?j \<inter> tech_skills \<noteq> {}" "card (set ?j \<inter> tech_skills) = 6"
    "card (set ?j \<inter> tech_skills \<inter> (set ?r \<inter> tech_skills)) = 1"
    by code_simp+
  have t: "card (set ?r \<inter> professional_terms) = 2"
    by code_simp
  show "keywords_score ?r ?j = 16"
    by (simp only: keywords_score_def k double_percentage_1_of_6)
  show "skills_score ?r ?j = 16"
    using s(1) by (simp only: skills_score_def Let_def s(2,3) double_percentage_1_of_6) simp
  show "tone_score ?r = 14"
    by (simp only: tone_score_def t double_percentage_2_of_14)
qed

lemma led_resume_summary:
  "summary_text 16 16 = ''Your resume matches 16% of job keywords with 16% skill alignment.''"
  by code_simp

lemma led_resume_score:
  "calculate_match_score ''Led and managed Python projects for 5 years''
       ''python java sql aws docker react''
     = Inr (25, 16, 50, 16,
            ''Your resume matches 16% of job keywords with 16% skill alignment.'')"
proof -
  have "set (extract_keywords ''python java sql aws docker react'') \<noteq> {}"
    by (simp add: six_skills_jd_keywords)
  from score_value [OF this, of "''Led and managed Python projects for 5 years''"] show ?thesis
    by (simp only: led_resume_keywords six_skills_jd_keywords led_resume_experience
                   led_resume_scores double_weighted_16_50_16_14 led_resume_summary
                   Let_def sum.case)
qed

subsection \<open>The claims on the scores\<close>





text \<open>
  C6. Each of the four percentages the scorer returns (overall, skills, experience,
  keywords) lies between 0 and 100, and so does the tone score it computes on the way.
\<close>

theorem scores_in_range:
  assumes "calculate_match_score resume_text jd_text
             = Inr (overall, skills, experience, keywords, summary)"
  shows "0 \<le> overall \<and> overall \<le> 100 \<and> 0 \<le> skills \<and> skills \<le> 100
         \<and> 0 \<le> experience \<and> experience \<le> 100 \<and> 0 \<le> keywords \<and> keywords \<le> 100
         \<and> (\<exists>tone. tone_match (set (extract_keywords resume_text)) = Inr tone
                    \<and> 0 \<le> tone \<and> tone \<le> 100)"
proof -
  let ?r = "extract_keywords resume_text" and ?j = "extract_keywords jd_text"
  note t = tone_match_value [where resume_keywords = ?r]
  have tone: "\<exists>tone. tone_match (set ?r) = Inr tone \<and> 0 \<le> tone \<and> tone \<le> 100"
    using t by blast
  show ?thesis
  proof (cases "set ?j = {}")
    case True
    then have "overall = 0" "skills = 0" "experience = 0" "keywords = 0"
      using assms by (simp_all add: calculate_match_score_def)
    then show ?thesis using tone by simp
  next
    case False
    note k = keywords_value [OF False, where resume_keywords = ?r]
    note s = skills_value [where jd_keywords = ?j and resume_keywords = ?r]
    from assms score_value [OF False, of resume_text]
    have e: "experience_match resume_text = Inr experience"
      and v: "keywords = keywords_score ?r ?j" "skills = skills_score ?r ?j"
        "overall = double_weighted_score skills experience keywords (tone_score ?r)"
      by (auto simp: Let_def split: sum.splits)
    from experience_range [OF e] have er: "0 \<le> experience" "experience \<le> 100" by simp_all
    have kr: "0 \<le> keywords" "keywords \<le> 100" using k(2,3) v(1) by simp_all
    have sr: "0 \<le> skills" "skills \<le> 100" using s(2,3) v(2) by simp_all
    note o = overall_value [OF sr er kr t(2,3)]
    show ?thesis using o(2,3) v(3) er kr sr tone by simp
  qed
qed

theorem scores_in_range_witness:
  "calculate_match_score ''Python developer, 5 years'' ''python developer''
       = Inr (75, 100, 50, 100,
              ''Your resume matches 100% of job keywords with 100% skill alignment.'')
   \<and> (0::int) \<le> 75 \<and> (75::int) \<le> 100 \<and> (0::int) \<le> 50 \<and> (50::int) \<le> 100
   \<and> (\<exists>tone. tone_match (set (extract_keywords ''Python developer, 5 years'')) = Inr tone
              \<and> 0 \<le> tone \<and> tone \<le> 100)"
  using scores_in_range [OF example_score] example_score by simp

subsection \<open>The experience match on the examples and beyond the range of doubles\<close>

lemma experience_10_years: "experience_match ''I have 10 years of experience'' = Inr 100"
proof -
  have y: "findall_years ''I have 10 years of experience'' = [''10'']" by code_simp
  have "int_of_digits ''10'' = 10" by code_simp
  then show ?thesis using experience_match_value [OF y] by simp
qed

lemma experience_20_years: "experience_match ''I have 20 years'' = Inr 100"
proof -
  have y: "findall_years ''I have 20 years'' = [''20'']" by code_simp
  have "int_of_digits ''20'' = 20" by code_simp
  then show ?thesis using experience_match_value [OF y] by simp
qed

lemma experience_0_years: "experience_match ''I have 0 years'' = Inr 0"
proof -
  have y: "findall_years ''I have 0 years'' = [''0'']" by code_simp
  have "int_of_digits ''0'' = 0" by code_simp
  then show ?thesis using experience_match_zero [OF y] by simp
qed

lemma experience_no_pattern: "experience_match ''I have experience'' = Inr 0"
proof -
  have "findall_years ''I have experience'' = []" by code_simp
  then show ?thesis by (rule experience_match_Nil)
qed

text \<open>
  C4. For a resume that gives its experience as \<open>10 ^ 308\<close> years (a one followed by
  308 zeros), the scorer does not return an experience match of 100: the conversion to
  a double overflows and the scorer raises \<^verbatim>\<open>OverflowError\<close>.
\<close>

theorem experience_overflows:
  "experience_match (CHR ''1'' # replicate 308 (CHR ''0'') @ '' years'') = Inl OverflowError
   \<and> calculate_match_score (CHR ''1'' # replicate 308 (CHR ''0'') @ '' years'')
        ''python developer'' = Inl OverflowError"
proof -
  let ?text = "CHR ''1'' # replicate 308 (CHR ''0'') @ '' years''"
  have y: "findall_years ?text = [CHR ''1'' # replicate 308 (CHR ''0'')]" by code_simp
  have "int_of_digits (CHR ''1'' # replicate 308 (CHR ''0'')) = 10 ^ 308" by code_simp
  then have e: "experience_match ?text = Inl OverflowError"
    using experience_match_overflow [OF y] by simp
  have "set (extract_keywords ''python developer'') \<noteq> {}"
    by (simp add: example_jd_keywords)
  from score_value [OF this, of ?text] e show ?thesis
    by (simp add: Let_def)
qed

end
